theory Spec2Isabelle
  imports Complex_Main "HOL-Library.AList"
begin

section \<open>Values read from line-delimited JSON files\<close>

text \<open>
  The three scripts read their inputs with \<^verbatim>\<open>json.loads\<close>, one value per non-blank
  line. A decoded value is any JSON value, not only an object; numbers are Python ints
  or floats. Objects are association lists in insertion order.
\<close>

datatype pyfloat = Finite rat | PosInf | NegInf | NaN

datatype json =
    JNull
  | JBool bool
  | JInt int
  | JFloat pyfloat
  | JStr string
  | JArr "json list"
  | JObj "(string \<times> json) list"

datatype error =
    FileNotFoundError
  | JSONDecodeError
  | AttributeError
  | TypeError
  | ZeroDivisionError
  | RuntimeError
  | OSError
  | ExternalError

text \<open>
  What the code takes from outside the repository: the file system, the JSON decoder,
  Python's \<^verbatim>\<open>str()\<close> on values that are not strings, and the captioning model.
  \<open>open_file p\<close> is the list of lines of the file at \<open>p\<close>, or \<open>None\<close> when there
  is no such file; \<open>json_loads s\<close> is \<open>None\<close> when the decoder raises;
  \<open>path_exists p\<close> is \<^verbatim>\<open>Path(p).exists()\<close>, or \<open>None\<close> when the call itself raises
  \<^verbatim>\<open>OSError\<close> (a name that is too long, a directory that may not be searched);
  \<open>caption p\<close> is the caption of the image at \<open>p\<close>, or \<open>None\<close> when the model or the
  image decoder raises.
\<close>

record world =
  open_file :: "string \<Rightarrow> string list option"
  json_loads :: "string \<Rightarrow> json option"
  py_repr :: "json \<Rightarrow> string"
  path_exists :: "string \<Rightarrow> bool option"
  caption :: "string \<Rightarrow> string option"

text \<open>Python truthiness, as used by \<^verbatim>\<open>not x\<close> and \<^verbatim>\<open>if x\<close>.\<close>

fun truthy :: "json \<Rightarrow> bool" where
  "truthy JNull = False"
| "truthy (JBool b) = b"
| "truthy (JInt i) = (i \<noteq> 0)"
| "truthy (JFloat x) = (x \<noteq> Finite 0)"
| "truthy (JStr s) = (s \<noteq> [])"
| "truthy (JArr xs) = (xs \<noteq> [])"
| "truthy (JObj kvs) = (kvs \<noteq> [])"

text \<open>\<^verbatim>\<open>str(v)\<close>: a string is returned as it is.\<close>

fun py_str :: "world \<Rightarrow> json \<Rightarrow> string" where
  "py_str w (JStr s) = s"
| "py_str w v = py_repr w v"

text \<open>\<^verbatim>\<open>d.get(k, default)\<close> on a dict, and \<^verbatim>\<open>r.get(k)\<close> on any decoded value: only a
  dict has the method.\<close>

definition dict_get :: "(string \<times> json) list \<Rightarrow> string \<Rightarrow> json \<Rightarrow> json" where
  "dict_get kvs k dflt = (case map_of kvs k of None \<Rightarrow> dflt | Some v \<Rightarrow> v)"

fun row_get :: "json \<Rightarrow> string \<Rightarrow> error + json" where
  "row_get (JObj kvs) k = Inr (dict_get kvs k JNull)"
| "row_get v k = Inl AttributeError"

text \<open>\<^verbatim>\<open>str.strip()\<close>; a character is a code point below 256.\<close>

definition isspace :: "char \<Rightarrow> bool" where
  "isspace c = (c \<in> set [CHR 0x09, CHR 0x0A, CHR 0x0B, CHR 0x0C, CHR 0x0D,
                          CHR 0x1C, CHR 0x1D, CHR 0x1E, CHR 0x1F, CHR 0x20, CHR 0x85, CHR 0xA0])"

definition strip :: "string \<Rightarrow> string" where
  "strip s = rev (dropWhile isspace (rev (dropWhile isspace s)))"

section \<open>dataset.py\<close>

text \<open>The loop of \<^verbatim>\<open>load_jsonl\<close> over the lines of the open file; \<open>rows\<close> is the list
  built so far.\<close>

fun read_rows :: "world \<Rightarrow> string list \<Rightarrow> json list \<Rightarrow> error + json list" where
  "read_rows w [] rows = Inr rows"
| "read_rows w (line # f) rows =
     (let line' = strip line in
      if line' = [] then read_rows w f rows
      else (case json_loads w line' of
              None \<Rightarrow> Inl JSONDecodeError
            | Some v \<Rightarrow> read_rows w f (rows @ [v])))"

definition load_jsonl :: "world \<Rightarrow> string \<Rightarrow> error + json list" where
  "load_jsonl w path =
     (case open_file w path of
        None \<Rightarrow> Inl FileNotFoundError
      | Some f \<Rightarrow> read_rows w f [])"

record Sample =
  image_path :: string
  "text" :: string

text \<open>The loop of \<^verbatim>\<open>ProductCaptionDataset.__init__\<close> that keeps only valid rows.\<close>

fun keep_valid :: "world \<Rightarrow> json list \<Rightarrow> Sample list \<Rightarrow> error + Sample list" where
  "keep_valid w [] clean = Inr clean"
| "keep_valid w (r # rs) clean =
     (case row_get r ''image_path'' of
        Inl e \<Rightarrow> Inl e
      | Inr ip \<Rightarrow>
         (case row_get r ''text'' of
            Inl e \<Rightarrow> Inl e
          | Inr txt \<Rightarrow>
             if \<not> truthy ip \<or> \<not> truthy txt then keep_valid w rs clean
             else keep_valid w rs
                    (clean @ [\<lparr>image_path = py_str w ip, text = py_str w txt\<rparr>])))"

definition ProductCaptionDataset_init :: "world \<Rightarrow> string \<Rightarrow> error + Sample list" where
  "ProductCaptionDataset_init w jsonl_path =
     (case load_jsonl w jsonl_path of
        Inl e \<Rightarrow> Inl e
      | Inr rows \<Rightarrow> keep_valid w rows [])"

definition ProductCaptionDataset_len :: "Sample list \<Rightarrow> nat" where
  "ProductCaptionDataset_len rows = length rows"

text \<open>
  The Sample Store as the specification words it: the records of the non-blank lines,
  in line order, keeping those with a non-empty \<^verbatim>\<open>image_path\<close> and a non-empty
  \<^verbatim>\<open>text\<close>. A field is non-empty when it is present and its value is not an empty
  one (empty string, null, zero, false, empty list or object).
\<close>

definition nonblank_lines :: "string list \<Rightarrow> string list" where
  "nonblank_lines f = filter (\<lambda>l. l \<noteq> []) (map strip f)"

definition records_of :: "world \<Rightarrow> string list \<Rightarrow> json list" where
  "records_of w f = List.map_filter (json_loads w) (nonblank_lines f)"

definition has_nonempty :: "(string \<times> json) list \<Rightarrow> string \<Rightarrow> bool" where
  "has_nonempty kvs k = (case map_of kvs k of None \<Rightarrow> False | Some v \<Rightarrow> truthy v)"

fun is_dict :: "json \<Rightarrow> bool" where
  "is_dict (JObj kvs) = True"
| "is_dict v = False"

fun valid_record :: "json \<Rightarrow> bool" where
  "valid_record (JObj kvs) = (has_nonempty kvs ''image_path'' \<and> has_nonempty kvs ''text'')"
| "valid_record v = False"

fun sample_of :: "world \<Rightarrow> json \<Rightarrow> Sample" where
  "sample_of w (JObj kvs) =
     \<lparr>image_path = py_str w (dict_get kvs ''image_path'' JNull),
      text = py_str w (dict_get kvs ''text'' JNull)\<rparr>"
| "sample_of w v = \<lparr>image_path = [], text = []\<rparr>"

definition spec_store :: "world \<Rightarrow> json list \<Rightarrow> Sample list" where
  "spec_store w recs = map (sample_of w) (filter valid_record recs)"

section \<open>config.py\<close>

text \<open>What \<^verbatim>\<open>torch\<close> reports about the machine.\<close>

record caps =
  cuda_is_available :: bool
  has_mps_backend :: bool
  mps_is_available :: bool

datatype dtype = float16 | float32

definition pick_device :: "caps \<Rightarrow> string \<times> dtype" where
  "pick_device c =
     (if cuda_is_available c then (''cuda'', float16)
      else if has_mps_backend c \<and> mps_is_available c then (''mps'', float16)
      else (''cpu'', float32))"

section \<open>train_lora.py\<close>

subsection \<open>The collator\<close>

text \<open>
  Tensors live in a store: an address is an index into the list of tensor contents, a
  new tensor is appended, and an in-place modification of the tensor at \<open>a\<close> is
  \<open>st[a := v]\<close>. The batch dictionary maps a key to the address of its tensor.
  \<^verbatim>\<open>clone\<close> gives a new tensor with the same content.
\<close>

definition alloc :: "'t list \<Rightarrow> 't \<Rightarrow> 't list \<times> nat" where
  "alloc st v = (st @ [v], length st)"

definition clone :: "'t list \<Rightarrow> nat \<Rightarrow> 't list \<times> nat" where
  "clone st a = alloc st (st ! a)"

text \<open>
  The image loader and the BLIP processor are outside the repository: \<open>load_image_rgb p\<close>
  is \<open>None\<close> when the image cannot be opened, and \<open>processor images texts\<close> gives the
  contents of \<^verbatim>\<open>pixel_values\<close>, \<^verbatim>\<open>input_ids\<close> and \<^verbatim>\<open>attention_mask\<close>, or \<open>None\<close>
  when it raises.
\<close>

record ('i, 't) blip =
  load_image_rgb :: "string \<Rightarrow> 'i option"
  processor :: "'i list \<Rightarrow> string list \<Rightarrow> ('t \<times> 't \<times> 't) option"

text \<open>The list comprehension over the batch stops at the first image that fails.\<close>

fun load_images :: "('i, 't) blip \<Rightarrow> Sample list \<Rightarrow> 'i list option" where
  "load_images b [] = Some []"
| "load_images b (s # batch) =
     (case load_image_rgb b (image_path s) of
        None \<Rightarrow> None
      | Some i \<Rightarrow> (case load_images b batch of None \<Rightarrow> None | Some is \<Rightarrow> Some (i # is)))"

definition BlipCollator_call ::
  "('i, 't) blip \<Rightarrow> 't list \<Rightarrow> Sample list \<Rightarrow> error + ('t list \<times> (string \<times> nat) list)" where
  "BlipCollator_call b st batch =
     (case load_images b batch of
        None \<Rightarrow> Inl ExternalError
      | Some images \<Rightarrow>
         (let texts = map text batch in
          case processor b images texts of
            None \<Rightarrow> Inl ExternalError
          | Some (pixel_values, input_ids, attention_mask) \<Rightarrow>
             (let (st1, a_pix) = alloc st pixel_values;
                  (st2, a_ids) = alloc st1 input_ids;
                  (st3, a_mask) = alloc st2 attention_mask;
                  inputs = [(''pixel_values'', a_pix), (''input_ids'', a_ids),
                            (''attention_mask'', a_mask)];
                  (st4, a_lab) = clone st3 (the (map_of inputs ''input_ids''));
                  inputs = AList.update ''labels'' a_lab inputs
              in Inr (st4, inputs))))"

subsection \<open>The training loop\<close>

record train_args =
  train_jsonl :: string
  batch_size :: int
  grad_accum :: int
  epochs :: int
  warmup_steps :: int
  max_train_steps :: int

text \<open>
  The counters of the loop: \<open>step\<close> is the variable of the source; the others count the
  calls that change the optimizer, the gradient buffers and the schedule.
  \<^verbatim>\<open>scaler.step(optim)\<close> applies the optimizer step only when the gradients are finite.
\<close>

record train_state =
  step :: int
  optimizer_steps :: nat
  skipped_steps :: nat
  zero_grads :: nat
  sched_steps :: nat

definition init_state :: train_state where
  "init_state = \<lparr>step = 0, optimizer_steps = 0, skipped_steps = 0, zero_grads = 1, sched_steps = 0\<rparr>"

text \<open>The body of the inner loop for one batch; \<open>grads_ok\<close> says whether the gradients
  accumulated so far are all finite.\<close>

definition micro_batch :: "train_args \<Rightarrow> bool \<Rightarrow> train_state \<Rightarrow> train_state" where
  "micro_batch a grads_ok s =
     (let s1 = (if (step s + 1) mod grad_accum a = 0
                then s\<lparr>optimizer_steps := optimizer_steps s + (if grads_ok then 1 else 0),
                       skipped_steps := skipped_steps s + (if grads_ok then 0 else 1),
                       zero_grads := zero_grads s + 1,
                       sched_steps := sched_steps s + 1\<rparr>
                else s)
      in s1\<lparr>step := step s1 + 1\<rparr>)"

text \<open>
  \<^verbatim>\<open>for batch in train_loader\<close> with \<open>k\<close> batches left, and \<^verbatim>\<open>for epoch in range(epochs)\<close>
  with \<open>e\<close> epochs left; \<open>n\<close> is \<^verbatim>\<open>len(train_loader)\<close>, \<open>T\<close> is \<^verbatim>\<open>total_steps\<close>, and
  \<open>fin i\<close> says whether the gradients are finite at the micro-batch with counter \<open>i\<close>.
\<close>

fun inner_loop :: "(int \<Rightarrow> bool) \<Rightarrow> train_args \<Rightarrow> int \<Rightarrow> nat \<Rightarrow> train_state \<Rightarrow> train_state" where
  "inner_loop fin a T 0 s = s"
| "inner_loop fin a T (Suc k) s =
     (let s' = micro_batch a (fin (step s)) s in
      if step s' \<ge> T then s' else inner_loop fin a T k s')"

fun outer_loop ::
  "(int \<Rightarrow> bool) \<Rightarrow> train_args \<Rightarrow> int \<Rightarrow> nat \<Rightarrow> nat \<Rightarrow> train_state \<Rightarrow> train_state" where
  "outer_loop fin a T n 0 s = s"
| "outer_loop fin a T n (Suc e) s =
     (let s' = inner_loop fin a T n s in
      if step s' \<ge> T then s' else outer_loop fin a T n e s')"

definition train_loop :: "(int \<Rightarrow> bool) \<Rightarrow> train_args \<Rightarrow> int \<Rightarrow> nat \<Rightarrow> train_state" where
  "train_loop fin a T n = outer_loop fin a T n (nat (epochs a)) init_state"

definition steps_per_epoch :: "train_args \<Rightarrow> nat \<Rightarrow> int" where
  "steps_per_epoch a n = max 1 (int n div grad_accum a)"

definition total_steps :: "train_args \<Rightarrow> nat \<Rightarrow> int" where
  "total_steps a n = min (max_train_steps a) (steps_per_epoch a n * epochs a)"

text \<open>
  \<open>DataLoader_len ds bs\<close> is \<^verbatim>\<open>len(train_loader)\<close> for the loader that \<^verbatim>\<open>torch\<close> builds
  from the dataset and the batch size, or \<open>None\<close> when it refuses them.
\<close>

record torch =
  DataLoader_len :: "Sample list \<Rightarrow> int \<Rightarrow> nat option"
  grads_finite :: "int \<Rightarrow> bool"

text \<open>
  \<^verbatim>\<open>main\<close> up to the end of the loop, in the order of the source: the device test, the
  dataset, the loader, \<^verbatim>\<open>total_steps\<close> (where a zero \<^verbatim>\<open>grad_accum\<close> raises), the loop.
  Loading the pretrained model and saving the adapter are left to the libraries.
\<close>

definition train_main :: "torch \<Rightarrow> world \<Rightarrow> caps \<Rightarrow> train_args \<Rightarrow> error + train_state" where
  "train_main t w c a =
     (let (device, amp_dtype) = pick_device c in
      if device \<noteq> ''cuda'' then Inl RuntimeError
      else (case ProductCaptionDataset_init w (train_jsonl a) of
              Inl e \<Rightarrow> Inl e
            | Inr train_ds \<Rightarrow>
               (case DataLoader_len t train_ds (batch_size a) of
                  None \<Rightarrow> Inl ExternalError
                | Some n \<Rightarrow>
                   if grad_accum a = 0 then Inl ZeroDivisionError
                   else Inr (train_loop (grads_finite t) a (total_steps a n) n))))"

text \<open>The state after \<open>k\<close> micro-batches in a row, with no test in between.\<close>

fun micro_batches :: "(int \<Rightarrow> bool) \<Rightarrow> train_args \<Rightarrow> nat \<Rightarrow> train_state \<Rightarrow> train_state" where
  "micro_batches fin a 0 s = s"
| "micro_batches fin a (Suc k) s = micro_batches fin a k (micro_batch a (fin (step s)) s)"

section \<open>predict.py\<close>

text \<open>
  The loop of the batch mode over the lines that \<^verbatim>\<open>iter_jsonl\<close> reads one at a time;
  \<open>preds\<close> and \<open>n\<close> are the variables of the source. \<^verbatim>\<open>Path(image_path)\<close> raises a
  \<^verbatim>\<open>TypeError\<close> on a value that is not a string. \<open>path_exists\<close> and \<open>caption\<close> take
  the string of the row; \<^verbatim>\<open>img_path.exists()\<close> has no handler, so an \<^verbatim>\<open>OSError\<close> of it
  leaves the loop. The result is the list handed to \<^verbatim>\<open>write_jsonl\<close>; an error leaves
  the loop before anything is written.
\<close>

fun batch_loop :: "world \<Rightarrow> int \<Rightarrow> string list \<Rightarrow> json list \<Rightarrow> int \<Rightarrow> error + json list" where
  "batch_loop w limit [] preds n = Inr preds"
| "batch_loop w limit (line # f) preds n =
     (let line' = strip line in
      if line' = [] then batch_loop w limit f preds n
      else (case json_loads w line' of
              None \<Rightarrow> Inl JSONDecodeError
            | Some (JObj row) \<Rightarrow>
               (let image_path = dict_get row ''image_path'' JNull in
                if \<not> truthy image_path then batch_loop w limit f preds n
                else (case image_path of
                        JStr img_path \<Rightarrow>
                         (case path_exists w img_path of
                            None \<Rightarrow> Inl OSError
                          | Some img_exists \<Rightarrow>
                             if \<not> img_exists
                             then batch_loop w limit f
                                    (preds @ [JObj (AList.update ''error'' (JStr ''image_not_found'')
                                                     (AList.update ''pred_text'' JNull row))]) n
                             else (case caption w img_path of
                                     None \<Rightarrow> Inl ExternalError
                                   | Some pred \<Rightarrow>
                                      (let preds' = preds @ [JObj (AList.update ''error'' JNull
                                                             (AList.update ''pred_text'' (JStr pred) row))];
                                           n' = n + 1
                                       in if limit \<noteq> 0 \<and> n' \<ge> limit then Inr preds'
                                          else batch_loop w limit f preds' n')))
                      | _ \<Rightarrow> Inl TypeError))
            | Some _ \<Rightarrow> Inl AttributeError))"

text \<open>\<^verbatim>\<open>main\<close> in batch mode, with \<^verbatim>\<open>--limit\<close> and \<^verbatim>\<open>--jsonl\<close>.\<close>

definition predict_main :: "world \<Rightarrow> int \<Rightarrow> string \<Rightarrow> error + json list" where
  "predict_main w limit jsonl =
     (case open_file w jsonl of
        None \<Rightarrow> Inl FileNotFoundError
      | Some f \<Rightarrow> batch_loop w limit f [] 0)"

text \<open>Reading a prediction record: a field of it, and which of its two result fields
  is not null.\<close>

fun field :: "json \<Rightarrow> string \<Rightarrow> json" where
  "field (JObj kvs) k = dict_get kvs k JNull"
| "field v k = JNull"

definition pred_text_set :: "json \<Rightarrow> bool" where
  "pred_text_set r = (field r ''pred_text'' \<noteq> JNull)"

definition error_set :: "json \<Rightarrow> bool" where
  "error_set r = (field r ''error'' \<noteq> JNull)"

definition exactly_one_populated :: "json \<Rightarrow> bool" where
  "exactly_one_populated r = (is_dict r \<and> (pred_text_set r \<noteq> error_set r))"

text \<open>The two records that the loop appends.\<close>

definition image_not_found_record :: "(string \<times> json) list \<Rightarrow> json" where
  "image_not_found_record row =
     JObj (AList.update ''error'' (JStr ''image_not_found'') (AList.update ''pred_text'' JNull row))"

definition success_record :: "(string \<times> json) list \<Rightarrow> string \<Rightarrow> json" where
  "success_record row pred =
     JObj (AList.update ''error'' JNull (AList.update ''pred_text'' (JStr pred) row))"

section \<open>evaluate.py\<close>

text \<open>The scoring libraries are outside the repository; \<open>None\<close> when one raises.\<close>

record 's scorers =
  sacrebleu_compute :: "string list \<Rightarrow> string list list \<Rightarrow> 's option"
  rouge_compute :: "string list \<Rightarrow> string list \<Rightarrow> ('s \<times> 's \<times> 's \<times> 's) option"

text \<open>The metrics report; \<open>metrics_n\<close> is its key \<^verbatim>\<open>"n"\<close>.\<close>

record 's metrics =
  sacrebleu :: 's
  rouge1 :: 's
  rouge2 :: 's
  rougeL :: 's
  rougeLsum :: 's
  metrics_n :: nat

definition compute_metrics :: "'s scorers \<Rightarrow> string list \<Rightarrow> string list \<Rightarrow> error + 's metrics" where
  "compute_metrics sc preds refs =
     (case sacrebleu_compute sc preds (map (\<lambda>r. [r]) refs) of
        None \<Rightarrow> Inl ExternalError
      | Some bleu_res \<Rightarrow>
         (case rouge_compute sc preds refs of
            None \<Rightarrow> Inl ExternalError
          | Some (r1, r2, rL, rLsum) \<Rightarrow>
             Inr \<lparr>sacrebleu = bleu_res, rouge1 = r1, rouge2 = r2, rougeL = rL,
                  rougeLsum = rLsum, metrics_n = length preds\<rparr>))"

text \<open>The loop of \<^verbatim>\<open>main\<close> over the rows of the predictions file.\<close>

fun collect_rows ::
  "world \<Rightarrow> string list \<Rightarrow> string list \<Rightarrow> string list \<Rightarrow> (json \<times> string \<times> string) list
     \<Rightarrow> error + (string list \<times> string list \<times> (json \<times> string \<times> string) list)" where
  "collect_rows w [] preds refs samples = Inr (preds, refs, samples)"
| "collect_rows w (line # f) preds refs samples =
     (let line' = strip line in
      if line' = [] then collect_rows w f preds refs samples
      else (case json_loads w line' of
              None \<Rightarrow> Inl JSONDecodeError
            | Some (JObj row) \<Rightarrow>
               if dict_get row ''error'' JNull \<noteq> JNull then collect_rows w f preds refs samples
               else (let ref = dict_get row ''text'' JNull;
                         pred = dict_get row ''pred_text'' JNull;
                         img = dict_get row ''image_path'' (JStr [])
                     in if \<not> truthy ref \<or> \<not> truthy pred then collect_rows w f preds refs samples
                        else collect_rows w f (preds @ [py_str w pred]) (refs @ [py_str w ref])
                               (samples @ [(img, py_str w ref, py_str w pred)]))
            | Some _ \<Rightarrow> Inl AttributeError))"

text \<open>\<^verbatim>\<open>rows[:limit]\<close>, where a negative limit counts from the end.\<close>

definition slice_to :: "'a list \<Rightarrow> int \<Rightarrow> 'a list" where
  "slice_to rows limit =
     (if 0 \<le> limit then take (nat limit) rows else take (length rows - nat (- limit)) rows)"

text \<open>The result is the metrics report and the rows of the samples report.\<close>

definition evaluate_main ::
  "world \<Rightarrow> 's scorers \<Rightarrow> string \<Rightarrow> int
     \<Rightarrow> error + ('s metrics \<times> (json \<times> string \<times> string) list)" where
  "evaluate_main w sc preds_path max_samples =
     (case open_file w preds_path of
        None \<Rightarrow> Inl FileNotFoundError
      | Some f \<Rightarrow>
         (case collect_rows w f [] [] [] of
            Inl e \<Rightarrow> Inl e
          | Inr (preds, refs, samples) \<Rightarrow>
             (case compute_metrics sc preds refs of
                Inl e \<Rightarrow> Inl e
              | Inr metrics \<Rightarrow> Inr (metrics, slice_to samples max_samples))))"

text \<open>
  A row of the predictions file that gives a (reference, prediction) pair: not an error
  row, and with a non-empty reference and a non-empty prediction.
\<close>

fun valid_pair :: "json \<Rightarrow> bool" where
  "valid_pair (JObj kvs) =
     (\<not> error_set (JObj kvs) \<and> has_nonempty kvs ''text'' \<and> has_nonempty kvs ''pred_text'')"
| "valid_pair v = False"

section \<open>Example files\<close>

text \<open>
  A small file system for the examples: the lines below with the values the JSON decoder
  gives for them, three image files, and the captions a model gives for them. Asking
  for a file whose name is longer than 255 characters raises. No field
  of the examples is a number, so \<open>py_repr\<close> is never asked.
\<close>

definition row_a :: string where
  \<open>row_a = ''{"image_path": "a.jpg", "text": "red shoe"}''\<close>

definition row_b :: string where
  \<open>row_b = ''{"image_path": "b.jpg"}''\<close>

definition row_c :: string where
  \<open>row_c = ''{"text": "blue bag"}''\<close>

definition row_d :: string where
  \<open>row_d = ''{"image_path": "d.jpg", "text": "belt"}''\<close>

definition row_e :: string where
  \<open>row_e = ''{"image_path": "e.jpg", "text": "green hat"}''\<close>

definition row_f :: string where
  \<open>row_f = ''{"image_path": "", "text": "scarf"}''\<close>

definition pred_a :: string where
  \<open>pred_a = ''{"image_path": "a.jpg", "text": "red shoe", "pred_text": "a shoe", "error": null}''\<close>

definition pred_d :: string where
  \<open>pred_d = ''{"image_path": "d.jpg", "text": "belt", "pred_text": null, "error": "image_not_found"}''\<close>

definition pred_e :: string where
  \<open>pred_e = ''{"image_path": "e.jpg", "text": "green hat", "pred_text": "a hat", "error": null}''\<close>

definition demo_decoder :: "(string \<times> json) list" where
  \<open>demo_decoder =
     [(row_a, JObj [(''image_path'', JStr ''a.jpg''), (''text'', JStr ''red shoe'')]),
      (row_b, JObj [(''image_path'', JStr ''b.jpg'')]),
      (row_c, JObj [(''text'', JStr ''blue bag'')]),
      (row_d, JObj [(''image_path'', JStr ''d.jpg''), (''text'', JStr ''belt'')]),
      (row_e, JObj [(''image_path'', JStr ''e.jpg''), (''text'', JStr ''green hat'')]),
      (row_f, JObj [(''image_path'', JStr []), (''text'', JStr ''scarf'')]),
      (pred_a, JObj [(''image_path'', JStr ''a.jpg''), (''text'', JStr ''red shoe''),
                     (''pred_text'', JStr ''a shoe''), (''error'', JNull)]),
      (pred_d, JObj [(''image_path'', JStr ''d.jpg''), (''text'', JStr ''belt''),
                     (''pred_text'', JNull), (''error'', JStr ''image_not_found'')]),
      (pred_e, JObj [(''image_path'', JStr ''e.jpg''), (''text'', JStr ''green hat''),
                     (''pred_text'', JStr ''a hat''), (''error'', JNull)]),
      (''[1, 2]'', JArr [JInt 1, JInt 2])]\<close>

definition nl :: "string \<Rightarrow> string" where
  "nl s = s @ [CHR 0x0A]"

definition demo_files :: "(string \<times> string list) list" where
  "demo_files =
     [(''train.jsonl'', [nl row_a, nl row_b, nl [], nl row_c, nl row_d, nl row_e]),
      (''two.jsonl'', [nl row_a, nl row_d]),
      (''limit.jsonl'', [nl row_d, nl row_a, nl row_e]),
      (''gaps.jsonl'', [nl row_c, nl row_f, nl row_a]),
      (''preds.jsonl'', [nl pred_a, nl pred_d, nl pred_e]),
      (''broken.jsonl'', [nl row_a, nl ''not json'']),
      (''list.jsonl'', [nl row_a, nl ''[1, 2]''])]"

definition demo_world :: world where
  "demo_world =
     \<lparr>open_file = map_of demo_files,
      json_loads = map_of demo_decoder,
      py_repr = (\<lambda>v. []),
      path_exists = (\<lambda>p. if 255 < length p then None
                         else Some (p \<in> set [''a.jpg'', ''b.jpg'', ''e.jpg''])),
      caption = map_of [(''a.jpg'', ''a shoe''), (''b.jpg'', ''a bag''), (''e.jpg'', ''a hat'')]\<rparr>"

definition demo_scorers :: "nat scorers" where
  "demo_scorers =
     \<lparr>sacrebleu_compute = (\<lambda>preds refs. if preds = [] then None else Some 0),
      rouge_compute = (\<lambda>preds refs. Some (0, 0, 0, 0))\<rparr>"

text \<open>A stand-in for the processor, with the data of a tensor as a list of integers.\<close>

datatype toy_tensor = Tensor "int list"

definition toy_blip :: "(string, toy_tensor) blip" where
  "toy_blip =
     \<lparr>load_image_rgb = (\<lambda>p. Some p),
      processor = (\<lambda>images texts.
         Some (Tensor [0, 0, 0], Tensor [101, 2417, 6007, 102], Tensor [1, 1, 1, 1]))\<rparr>"

definition mps_only :: caps where
  "mps_only = \<lparr>cuda_is_available = False, has_mps_backend = True, mps_is_available = True\<rparr>"

definition cuda_box :: caps where
  "cuda_box = \<lparr>cuda_is_available = True, has_mps_backend = False, mps_is_available = False\<rparr>"

definition cpu_only :: caps where
  "cpu_only = \<lparr>cuda_is_available = False, has_mps_backend = True, mps_is_available = False\<rparr>"

definition demo_args :: train_args where
  "demo_args =
     \<lparr>train_jsonl = ''train.jsonl'', batch_size = 8, grad_accum = 4, epochs = 1,
      warmup_steps = 200, max_train_steps = 2000\<rparr>"

definition demo_torch :: torch where
  "demo_torch = \<lparr>DataLoader_len = (\<lambda>ds bs. Some 10), grads_finite = (\<lambda>i. True)\<rparr>"

text \<open>
  A row whose image name is longer than a file system takes (255 characters): the file
  cannot exist, and asking whether it does raises \<^verbatim>\<open>OSError\<close>.
\<close>

definition long_name :: string where
  "long_name = replicate 300 (CHR ''a'')"

definition row_long :: string where
  \<open>row_long = ''{"image_path": "'' @ long_name @ ''"}''\<close>

definition long_name_world :: world where
  "long_name_world =
     demo_world
       \<lparr>open_file := (\<lambda>p. if p = ''long.jsonl'' then Some [nl row_a, nl row_long] else None),
        json_loads := (\<lambda>s. if s = row_long then Some (JObj [(''image_path'', JStr long_name)])
                           else json_loads demo_world s)\<rparr>"

text \<open>The arguments of a run with \<^verbatim>\<open>--grad_accum 1 --max_train_steps 0\<close>.\<close>

definition zero_budget_args :: train_args where
  "zero_budget_args = demo_args\<lparr>grad_accum := 1, max_train_steps := 0\<rparr>"

section \<open>The Sample Store\<close>

lemmas demo_defs = demo_world_def demo_files_def demo_decoder_def nl_def strip_def isspace_def
  row_a_def row_b_def row_c_def row_d_def row_e_def row_f_def pred_a_def pred_d_def pred_e_def
  dict_get_def

lemma map_filter_all_Some:
  "\<forall>l\<in>set ls. g l \<noteq> None \<Longrightarrow> map g ls = map Some (List.map_filter g ls)"
  by (induction ls) (auto simp: List.map_filter_simps)

lemma read_rows_Inr:
  "read_rows w f rows = Inr out \<Longrightarrow>
     out = rows @ records_of w f \<and> (\<forall>l\<in>set (nonblank_lines f). json_loads w l \<noteq> None)"
proof (induction f arbitrary: rows)
  case Nil
  then show ?case by (simp add: records_of_def nonblank_lines_def List.map_filter_simps)
next
  case (Cons line f)
  show ?case
  proof (cases "strip line = []")
    case True
    with Cons.prems have "read_rows w f rows = Inr out" by simp
    from Cons.IH[OF this] True show ?thesis
      by (simp add: records_of_def nonblank_lines_def)
  next
    case False
    with Cons.prems obtain v where v: "json_loads w (strip line) = Some v"
      and r: "read_rows w f (rows @ [v]) = Inr out"
      by (auto simp: Let_def split: option.splits)
    from Cons.IH[OF r] False v show ?thesis
      by (simp add: records_of_def nonblank_lines_def List.map_filter_simps)
  qed
qed


lemma has_nonempty_get: "has_nonempty kvs k = truthy (dict_get kvs k JNull)"
  by (simp add: has_nonempty_def dict_get_def split: option.splits)

lemma keep_valid_Inr:
  "keep_valid w rs clean = Inr out \<Longrightarrow> out = clean @ spec_store w rs \<and> (\<forall>r\<in>set rs. is_dict r)"
proof (induction rs arbitrary: clean)
  case Nil
  then show ?case by (simp add: spec_store_def)
next
  case (Cons r rs)
  from Cons.prems obtain kvs where r: "r = JObj kvs"
    by (cases r) auto
  show ?case
  proof (cases "valid_record r")
    case True
    with r Cons.prems have "keep_valid w rs (clean @ [sample_of w r]) = Inr out"
      by (simp add: has_nonempty_get)
    from Cons.IH[OF this] True r show ?thesis by (simp add: spec_store_def)
  next
    case False
    with r Cons.prems have "keep_valid w rs clean = Inr out"
      by (auto simp: has_nonempty_get)
    from Cons.IH[OF this] False r show ?thesis by (simp add: spec_store_def)
  qed
qed


lemma init_Inr:
  assumes "open_file w p = Some f" and "ProductCaptionDataset_init w p = Inr ds"
  shows "ds = spec_store w (records_of w f)"
    and "\<forall>l\<in>set (nonblank_lines f). json_loads w l \<noteq> None"
    and "\<forall>r\<in>set (records_of w f). is_dict r"
proof -
  from assms obtain rows where rows: "read_rows w f [] = Inr rows"
    and keep: "keep_valid w rows [] = Inr ds"
    by (auto simp: ProductCaptionDataset_init_def load_jsonl_def split: sum.splits)
  from read_rows_Inr[OF rows] have r: "rows = records_of w f"
    and d: "\<forall>l\<in>set (nonblank_lines f). json_loads w l \<noteq> None" by simp_all
  from keep_valid_Inr[OF keep] r show "ds = spec_store w (records_of w f)"
    and "\<forall>r\<in>set (records_of w f). is_dict r" by simp_all
  from d show "\<forall>l\<in>set (nonblank_lines f). json_loads w l \<noteq> None" .
qed


text \<open>
  Claim C4. When a file loads, every non-blank line has given one record, and the store
  holds exactly the Samples of the records that have a non-empty \<^verbatim>\<open>image_path\<close> and a
  non-empty \<^verbatim>\<open>text\<close>, one each and in line order; the records that miss a field or
  have it empty give no Sample. The file of Scenario A, with three valid rows, a row
  without \<^verbatim>\<open>text\<close> and a row without \<^verbatim>\<open>image_path\<close>, gives a store of length 3.
\<close>

theorem sample_store_contents:
  assumes "open_file w p = Some f" and "ProductCaptionDataset_init w p = Inr ds"
  shows "map (json_loads w) (nonblank_lines f) = map Some (records_of w f)
       \<and> ds = map (sample_of w) (filter valid_record (records_of w f))
       \<and> ProductCaptionDataset_len ds = length (filter valid_record (records_of w f))"
proof -
  from init_Inr[OF assms] have ds: "ds = spec_store w (records_of w f)"
    and d: "\<forall>l\<in>set (nonblank_lines f). json_loads w l \<noteq> None" by simp_all
  from map_filter_all_Some[OF d]
  have "map (json_loads w) (nonblank_lines f) = map Some (records_of w f)"
    by (simp add: records_of_def)
  with ds show ?thesis by (simp add: spec_store_def ProductCaptionDataset_len_def)
qed

theorem sample_store_contents_witness:
  "open_file demo_world ''train.jsonl'' = Some [nl row_a, nl row_b, nl [], nl row_c, nl row_d, nl row_e]
   \<and> ProductCaptionDataset_init demo_world ''train.jsonl'' =
       Inr [\<lparr>image_path = ''a.jpg'', text = ''red shoe''\<rparr>,
            \<lparr>image_path = ''d.jpg'', text = ''belt''\<rparr>,
            \<lparr>image_path = ''e.jpg'', text = ''green hat''\<rparr>]
   \<and> ProductCaptionDataset_len
         [\<lparr>image_path = ''a.jpg'', text = ''red shoe''\<rparr>,
          \<lparr>image_path = ''d.jpg'', text = ''belt''\<rparr>,
          \<lparr>image_path = ''e.jpg'', text = ''green hat''\<rparr>] = 3
   \<and> length (filter valid_record
         (records_of demo_world [nl row_a, nl row_b, nl [], nl row_c, nl row_d, nl row_e])) = 3"
proof -
  have f: "open_file demo_world ''train.jsonl'' =
             Some [nl row_a, nl row_b, nl [], nl row_c, nl row_d, nl row_e]"
    by (simp add: demo_world_def demo_files_def)
  have r: "ProductCaptionDataset_init demo_world ''train.jsonl'' =
       Inr [\<lparr>image_path = ''a.jpg'', text = ''red shoe''\<rparr>,
            \<lparr>image_path = ''d.jpg'', text = ''belt''\<rparr>,
            \<lparr>image_path = ''e.jpg'', text = ''green hat''\<rparr>]"
    by (simp add: ProductCaptionDataset_init_def load_jsonl_def demo_defs)
  from sample_store_contents[OF f r] f r show ?thesis
    by (simp add: ProductCaptionDataset_len_def)
qed




section \<open>The device probe\<close>

text \<open>
  Claim C6. Training on any device other than CUDA stops with a \<^verbatim>\<open>RuntimeError\<close>
  before the dataset is opened or a batch is processed, so a training run that returns
  has run on CUDA. The probe prefers CUDA, then MPS, then the CPU, and gives half
  precision exactly on the two accelerators.
\<close>

theorem no_silent_fallback:
  "(fst (pick_device c) \<noteq> ''cuda'' \<longrightarrow> train_main t w c a = Inl RuntimeError)
   \<and> (\<forall>s. train_main t w c a = Inr s \<longrightarrow> pick_device c = (''cuda'', float16))
   \<and> (cuda_is_available c \<longrightarrow> pick_device c = (''cuda'', float16))
   \<and> (\<not> cuda_is_available c \<and> has_mps_backend c \<and> mps_is_available c
        \<longrightarrow> pick_device c = (''mps'', float16))
   \<and> (\<not> cuda_is_available c \<and> \<not> (has_mps_backend c \<and> mps_is_available c)
        \<longrightarrow> pick_device c = (''cpu'', float32))
   \<and> (snd (pick_device c) = float16 \<longleftrightarrow> fst (pick_device c) \<in> {''cuda'', ''mps''})"
  by (auto simp: train_main_def pick_device_def split: if_splits)

theorem no_silent_fallback_witness:
  "train_main demo_torch demo_world cpu_only (demo_args\<lparr>train_jsonl := ''none.jsonl''\<rparr>)
     = Inl RuntimeError
   \<and> pick_device cpu_only = (''cpu'', float32)
   \<and> train_main demo_torch demo_world mps_only demo_args = Inl RuntimeError
   \<and> pick_device mps_only = (''mps'', float16)
   \<and> train_main demo_torch demo_world cuda_box demo_args
       = Inr \<lparr>step = 2, optimizer_steps = 0, skipped_steps = 0, zero_grads = 1, sched_steps = 0\<rparr>
   \<and> pick_device cuda_box = (''cuda'', float16)"
proof -
  have ds: "ProductCaptionDataset_init demo_world ''train.jsonl'' =
       Inr [\<lparr>image_path = ''a.jpg'', text = ''red shoe''\<rparr>,
            \<lparr>image_path = ''d.jpg'', text = ''belt''\<rparr>,
            \<lparr>image_path = ''e.jpg'', text = ''green hat''\<rparr>]"
    by (simp add: ProductCaptionDataset_init_def load_jsonl_def demo_defs)
  have loop: "train_loop (\<lambda>i. True) demo_args 2 10
       = \<lparr>step = 2, optimizer_steps = 0, skipped_steps = 0, zero_grads = 1, sched_steps = 0\<rparr>"
    by (simp add: train_loop_def demo_args_def init_state_def micro_batch_def
          numeral_eq_Suc Let_def)
  have run: "train_main demo_torch demo_world cuda_box demo_args
       = Inr \<lparr>step = 2, optimizer_steps = 0, skipped_steps = 0, zero_grads = 1, sched_steps = 0\<rparr>"
    using loop
    by (simp add: train_main_def pick_device_def cuda_box_def ds [simplified demo_args_def]
          demo_torch_def total_steps_def steps_per_epoch_def demo_args_def)
  have "fst (pick_device cpu_only) \<noteq> ''cuda''" "fst (pick_device mps_only) \<noteq> ''cuda''"
    by (simp_all add: pick_device_def cpu_only_def mps_only_def)
  with no_silent_fallback[of cpu_only demo_torch demo_world "demo_args\<lparr>train_jsonl := ''none.jsonl''\<rparr>"]
       no_silent_fallback[of mps_only demo_torch demo_world demo_args]
       no_silent_fallback[of cuda_box demo_torch demo_world demo_args] run
  show ?thesis
    by (simp add: cpu_only_def mps_only_def cuda_box_def)
qed

section \<open>The collator\<close>

text \<open>
  Claim C3. After collation the batch has a \<^verbatim>\<open>labels\<close> tensor and an \<^verbatim>\<open>input_ids\<close>
  tensor with the same content at two different addresses of the store, so an in-place
  modification of either one leaves the other as it was.
\<close>

theorem labels_decoupled:
  assumes "BlipCollator_call b st batch = Inr (st', inputs)"
  shows "\<exists>a_ids a_lab.
           map_of inputs ''input_ids'' = Some a_ids \<and> map_of inputs ''labels'' = Some a_lab
         \<and> a_ids < length st' \<and> a_lab < length st' \<and> a_lab \<noteq> a_ids
         \<and> st' ! a_lab = st' ! a_ids
         \<and> (\<forall>v. st'[a_lab := v] ! a_ids = st' ! a_ids)
         \<and> (\<forall>v. st'[a_ids := v] ! a_lab = st' ! a_lab)"
proof -
  from assms obtain images pix ids mask where
    "processor b images (map text batch) = Some (pix, ids, mask)"
    and st': "st' = st @ [pix, ids, mask, ids]"
    and inputs: "inputs = [(''pixel_values'', length st), (''input_ids'', Suc (length st)),
                           (''attention_mask'', Suc (Suc (length st))),
                           (''labels'', Suc (Suc (Suc (length st))))]"
    by (auto simp: BlipCollator_call_def alloc_def clone_def Let_def nth_append
             split: option.splits prod.splits)
  show ?thesis
    by (simp add: st' inputs nth_append)
qed

theorem labels_decoupled_witness:
  "BlipCollator_call toy_blip [Tensor [7]] [\<lparr>image_path = ''a.jpg'', text = ''red shoe''\<rparr>]
     = Inr ([Tensor [7], Tensor [0, 0, 0], Tensor [101, 2417, 6007, 102], Tensor [1, 1, 1, 1],
             Tensor [101, 2417, 6007, 102]],
            [(''pixel_values'', 1), (''input_ids'', 2), (''attention_mask'', 3), (''labels'', 4)])
   \<and> (\<exists>a_ids a_lab.
         map_of [(''pixel_values'', 1), (''input_ids'', 2), (''attention_mask'', 3),
                 (''labels'', 4::nat)] ''input_ids'' = Some a_ids
       \<and> map_of [(''pixel_values'', 1), (''input_ids'', 2), (''attention_mask'', 3),
                 (''labels'', 4::nat)] ''labels'' = Some a_lab
       \<and> a_lab \<noteq> a_ids)"
proof -
  have run: "BlipCollator_call toy_blip [Tensor [7]] [\<lparr>image_path = ''a.jpg'', text = ''red shoe''\<rparr>]
     = Inr ([Tensor [7], Tensor [0, 0, 0], Tensor [101, 2417, 6007, 102], Tensor [1, 1, 1, 1],
             Tensor [101, 2417, 6007, 102]],
            [(''pixel_values'', 1), (''input_ids'', 2), (''attention_mask'', 3), (''labels'', 4)])"
    by (simp add: BlipCollator_call_def toy_blip_def alloc_def clone_def)
  from labels_decoupled[OF run] run show ?thesis by blast
qed

section \<open>The training loop\<close>

lemma div_succ:
  fixes x K :: int
  assumes "0 < K"
  shows "(x + 1) div K = x div K + (if (x + 1) mod K = 0 then 1 else 0)"
proof (cases "(x + 1) mod K = 0")
  case True
  then obtain q where q: "x + 1 = K * q" by (auto simp: mod_eq_0_iff_dvd)
  then have x: "x = K * (q - 1) + (K - 1)" by (simp add: algebra_simps)
  have "x div K = q - 1"
    using assms by (subst x) (simp add: div_mult_self2 del: mult_cancel_left)
  moreover have "(x + 1) div K = q" using q assms by simp
  ultimately show ?thesis using True by simp
next
  case False
  have "x mod K \<noteq> K - 1"
  proof
    assume "x mod K = K - 1"
    then have "(x + 1) mod K = (K - 1 + 1) mod K" by (metis mod_add_left_eq)
    then show False using False by simp
  qed
  moreover have nn: "0 \<le> x mod K" and "x mod K < K" using assms by simp_all
  ultimately have lt: "x mod K + 1 < K" by linarith
  have "x + 1 = K * (x div K) + (x mod K + 1)" by simp
  from int_div_pos_eq[OF this _ lt] nn
  have "(x + 1) div K = x div K" by simp
  then show ?thesis using False by simp
qed

lemma step_micro_batch: "step (micro_batch a b s) = step s + 1"
  by (simp add: micro_batch_def Let_def)

lemma step_micro_batches: "step (micro_batches fin a k s) = step s + int k"
  by (induction k arbitrary: s) (simp_all add: step_micro_batch)

lemma micro_batches_add:
  "micro_batches fin a (i + j) s = micro_batches fin a j (micro_batches fin a i s)"
  by (induction i arbitrary: s) simp_all

lemma sched_micro_batch:
  "0 < grad_accum a \<Longrightarrow>
   int (sched_steps (micro_batch a b s)) =
     int (sched_steps s) + ((step s + 1) div grad_accum a - step s div grad_accum a)"
  by (simp add: micro_batch_def Let_def div_succ)

lemma optimizer_micro_batch:
  "0 < grad_accum a \<Longrightarrow> b \<Longrightarrow>
   int (optimizer_steps (micro_batch a b s)) =
     int (optimizer_steps s) + ((step s + 1) div grad_accum a - step s div grad_accum a)"
  by (simp add: micro_batch_def Let_def div_succ)

lemma sched_micro_batches:
  "0 < grad_accum a \<Longrightarrow>
   int (sched_steps (micro_batches fin a k s)) =
     int (sched_steps s) + ((step s + int k) div grad_accum a - step s div grad_accum a)"
proof (induction k arbitrary: s)
  case 0
  then show ?case by simp
next
  case (Suc k)
  show ?case
    using Suc.IH[OF Suc.prems, of "micro_batch a (fin (step s)) s"]
      sched_micro_batch[OF Suc.prems, of "fin (step s)" s]
    by (simp add: step_micro_batch add.commute add.left_commute)
qed

lemma optimizer_micro_batches:
  "0 < grad_accum a \<Longrightarrow> \<forall>j<k. fin (step s + int j) \<Longrightarrow>
   int (optimizer_steps (micro_batches fin a k s)) =
     int (optimizer_steps s) + ((step s + int k) div grad_accum a - step s div grad_accum a)"
proof (induction k arbitrary: s)
  case 0
  then show ?case by simp
next
  case (Suc k)
  from Suc.prems(2) have f0: "fin (step s)"
    by (metis of_nat_0 add.right_neutral zero_less_Suc)
  have rest: "\<forall>j<k. fin (step (micro_batch a (fin (step s)) s) + int j)"
  proof (intro allI impI)
    fix j assume "j < k"
    then have "fin (step s + int (Suc j))" using Suc.prems(2) by blast
    then show "fin (step (micro_batch a (fin (step s)) s) + int j)"
      by (simp add: step_micro_batch add.commute add.left_commute)
  qed
  show ?case
    using Suc.IH[OF Suc.prems(1) rest] optimizer_micro_batch[OF Suc.prems(1) f0, of s] f0
    by (simp add: step_micro_batch add.commute add.left_commute)
qed

text \<open>The two loops process micro-batches one after the other until the test after a
  micro-batch finds the counter at \<open>T\<close> or the batches run out.\<close>

lemma inner_loop_run:
  "inner_loop fin a T k s = micro_batches fin a (min k (max 1 (nat (T - step s)))) s"
proof (induction k arbitrary: s)
  case 0
  show ?case by simp
next
  case (Suc k)
  let ?s' = "micro_batch a (fin (step s)) s"
  have st: "step ?s' = step s + 1" by (rule step_micro_batch)
  show ?case
  proof (cases "T \<le> step ?s'")
    case True
    then have "min (Suc k) (max 1 (nat (T - step s))) = Suc 0" using st by arith
    with True show ?thesis by (simp add: Let_def)
  next
    case False
    then have "min (Suc k) (max 1 (nat (T - step s))) = Suc (min k (max 1 (nat (T - step ?s'))))"
      using st by arith
    with False Suc.IH[of ?s'] show ?thesis by (simp add: Let_def)
  qed
qed

lemma outer_loop_run:
  "outer_loop fin a T n e s = micro_batches fin a (min (e * n) (max 1 (nat (T - step s)))) s"
proof (induction e arbitrary: s)
  case 0
  show ?case by simp
next
  case (Suc e)
  define M where "M = max 1 (nat (T - step s))"
  define m where "m = min n M"
  let ?s' = "inner_loop fin a T n s"
  have s': "?s' = micro_batches fin a m s" by (simp add: inner_loop_run m_def M_def)
  have st: "step ?s' = step s + int m" by (simp add: s' step_micro_batches)
  show ?case
  proof (cases "T \<le> step ?s'")
    case True
    have "min (Suc e * n) M = m"
    proof (cases "M \<le> n")
      case True
      then have "M \<le> n + e * n" by simp
      with True show ?thesis by (simp add: m_def min_def)
    next
      case False
      then have mn: "m = n" by (simp add: m_def min_def)
      with True st have "T - step s \<le> int n" by simp
      with False have "n = 0" by (simp add: M_def max_def split: if_splits)
      with mn show ?thesis by simp
    qed
    with True s' show ?thesis by (simp add: Let_def M_def del: mult_Suc)
  next
    case False
    with st have lt: "step s + int m < T" by simp
    then have M: "M = nat (T - step s)" by (simp add: M_def max_def)
    from lt M have mM: "m < M" by simp
    then have mn: "m = n" by (simp add: m_def min_def split: if_splits)
    have M': "max 1 (nat (T - step ?s')) = M - n" using lt st mn M by arith
    have "Suc e * n = n + e * n" by simp
    then have "min (Suc e * n) M = n + min (e * n) (M - n)" using mM mn by arith
    with False Suc.IH[of ?s'] s' mn M' show ?thesis
      by (simp add: Let_def micro_batches_add M_def del: mult_Suc)
  qed
qed

lemma total_steps_pos_epochs: "0 < total_steps a n \<Longrightarrow> 0 < epochs a"
  by (simp add: total_steps_def steps_per_epoch_def zero_less_mult_iff max_def split: if_splits)

text \<open>
  Claim C1. With \<open>K = grad_accum\<close> positive, any \<open>K\<close> micro-batches in a row with finite
  gradients, from any state of the loop, apply exactly one optimizer step and advance the
  schedule exactly once. A micro-batch changes neither count unless it is the boundary
  (\<open>(step + 1) mod K = 0\<close>), where the schedule advances and the optimizer steps when the
  gradients are finite. Every micro-batch increments \<open>step\<close>. By \<open>outer_loop_run\<close>
  every run of the loop is such a row of micro-batches.
\<close>

theorem accumulation_window:
  assumes "0 < grad_accum a" and "\<forall>j<nat (grad_accum a). fin (step s + int j)"
  shows "optimizer_steps (micro_batches fin a (nat (grad_accum a)) s) = optimizer_steps s + 1
       \<and> sched_steps (micro_batches fin a (nat (grad_accum a)) s) = sched_steps s + 1
       \<and> step (micro_batches fin a (nat (grad_accum a)) s) = step s + grad_accum a
       \<and> (\<forall>b. (step s + 1) mod grad_accum a \<noteq> 0 \<longrightarrow>
                optimizer_steps (micro_batch a b s) = optimizer_steps s
              \<and> sched_steps (micro_batch a b s) = sched_steps s)
       \<and> (\<forall>b. (step s + 1) mod grad_accum a = 0 \<longrightarrow>
                optimizer_steps (micro_batch a b s) = optimizer_steps s + (if b then 1 else 0)
              \<and> sched_steps (micro_batch a b s) = sched_steps s + 1)
       \<and> (\<forall>b. step (micro_batch a b s) = step s + 1)"
proof -
  note K = assms(1)
  have d: "(step s + grad_accum a) div grad_accum a - step s div grad_accum a = 1"
    using K by simp
  have "optimizer_steps (micro_batches fin a (nat (grad_accum a)) s) = optimizer_steps s + 1"
    using optimizer_micro_batches[OF assms] d K by simp
  moreover have "sched_steps (micro_batches fin a (nat (grad_accum a)) s) = sched_steps s + 1"
    using sched_micro_batches[OF K, of fin "nat (grad_accum a)" s] d K by simp
  moreover have "step (micro_batches fin a (nat (grad_accum a)) s) = step s + grad_accum a"
    using K by (simp add: step_micro_batches)
  ultimately show ?thesis
    by (simp add: micro_batch_def Let_def)
qed

theorem accumulation_window_witness:
  "0 < grad_accum demo_args
   \<and> optimizer_steps (micro_batches (\<lambda>i. True) demo_args (nat (grad_accum demo_args))
         (init_state\<lparr>step := 6\<rparr>)) = 1
   \<and> sched_steps (micro_batches (\<lambda>i. True) demo_args (nat (grad_accum demo_args))
         (init_state\<lparr>step := 6\<rparr>)) = 1
   \<and> step (micro_batches (\<lambda>i. True) demo_args (nat (grad_accum demo_args))
         (init_state\<lparr>step := 6\<rparr>)) = 10
   \<and> sched_steps (micro_batch demo_args True (init_state\<lparr>step := 6\<rparr>)) = 0
   \<and> sched_steps (micro_batch demo_args True (init_state\<lparr>step := 7\<rparr>)) = 1"
  using accumulation_window[of demo_args "\<lambda>i. True" "init_state\<lparr>step := 6\<rparr>"]
    accumulation_window[of demo_args "\<lambda>i. True" "init_state\<lparr>step := 7\<rparr>"]
  by (simp add: demo_args_def init_state_def)

text \<open>
  Claim C2, as stated, fails: with \<^verbatim>\<open>--max_train_steps 0\<close> the counter is at
  \<open>total_steps\<close> before the first micro-batch, and the loop still processes one, because
  it tests the counter only after the body.
\<close>

theorem total_steps_stop_counterexample:
  "total_steps zero_budget_args 10 = 0
   \<and> step init_state = 0
   \<and> train_loop (\<lambda>i. True) zero_budget_args (total_steps zero_budget_args 10) 10
       = \<lparr>step = 1, optimizer_steps = 1, skipped_steps = 0, zero_grads = 2, sched_steps = 1\<rparr>
   \<and> train_main demo_torch demo_world cuda_box zero_budget_args
       = Inr \<lparr>step = 1, optimizer_steps = 1, skipped_steps = 0, zero_grads = 2, sched_steps = 1\<rparr>"
proof -
  have ts: "total_steps zero_budget_args 10 = 0"
    by (simp add: total_steps_def steps_per_epoch_def zero_budget_args_def demo_args_def)
  have loop: "train_loop (\<lambda>i. True) zero_budget_args 0 10
       = \<lparr>step = 1, optimizer_steps = 1, skipped_steps = 0, zero_grads = 2, sched_steps = 1\<rparr>"
    by (simp add: train_loop_def zero_budget_args_def demo_args_def init_state_def
          micro_batch_def numeral_eq_Suc Let_def)
  have ds: "ProductCaptionDataset_init demo_world ''train.jsonl'' =
       Inr [\<lparr>image_path = ''a.jpg'', text = ''red shoe''\<rparr>,
            \<lparr>image_path = ''d.jpg'', text = ''belt''\<rparr>,
            \<lparr>image_path = ''e.jpg'', text = ''green hat''\<rparr>]"
    by (simp add: ProductCaptionDataset_init_def load_jsonl_def demo_defs)
  have a: "train_jsonl zero_budget_args = ''train.jsonl''" "batch_size zero_budget_args = 8"
    "grad_accum zero_budget_args = 1"
    by (simp_all add: zero_budget_args_def demo_args_def)
  have "train_main demo_torch demo_world cuda_box zero_budget_args
       = Inr (train_loop (\<lambda>i. True) zero_budget_args (total_steps zero_budget_args 10) 10)"
    by (simp add: train_main_def pick_device_def cuda_box_def a ds demo_torch_def)
  with ts loop show ?thesis by (simp add: init_state_def)
qed

text \<open>
  Claim C2, amended. \<open>total_steps\<close> is the smaller of the configured maximum and
  \<open>steps_per_epoch \<times> epochs\<close>, where \<open>steps_per_epoch\<close> is
  \<^verbatim>\<open>max(1, len(train_loader) // grad_accum)\<close>. The loop tests the counter only after a
  micro-batch: it is a row of micro-batches that ends with the first one after which
  \<open>step\<close> is at or above \<open>total_steps\<close>, or with the last batch of the last epoch. For a
  positive \<open>total_steps\<close> it ends with \<open>step\<close> equal to \<open>total_steps\<close> whenever the
  epochs hold that many batches, mid-epoch and whatever data remains; for a \<open>total_steps\<close>
  that is zero or negative it ends after one micro-batch when there is one.
\<close>

theorem total_steps_stop:
  "total_steps a n = min (max_train_steps a) (max 1 (int n div grad_accum a) * epochs a)
   \<and> train_loop fin a (total_steps a n) n =
       micro_batches fin a (min (nat (epochs a) * n) (max 1 (nat (total_steps a n)))) init_state
   \<and> (0 < total_steps a n \<longrightarrow>
        step (train_loop fin a (total_steps a n) n) = min (total_steps a n) (int n * epochs a))
   \<and> (total_steps a n \<le> 0 \<and> 0 < epochs a \<and> 0 < n \<longrightarrow>
        train_loop fin a (total_steps a n) n = micro_batch a (fin 0) init_state
      \<and> step (train_loop fin a (total_steps a n) n) = 1)"
proof -
  have ts: "total_steps a n = min (max_train_steps a) (max 1 (int n div grad_accum a) * epochs a)"
    by (simp add: total_steps_def steps_per_epoch_def)
  have run: "train_loop fin a (total_steps a n) n =
       micro_batches fin a (min (nat (epochs a) * n) (max 1 (nat (total_steps a n)))) init_state"
    by (simp add: train_loop_def outer_loop_run init_state_def)
  have pos: "0 < total_steps a n \<longrightarrow>
        step (train_loop fin a (total_steps a n) n) = min (total_steps a n) (int n * epochs a)"
  proof
    assume pos: "0 < total_steps a n"
    then have e: "0 < epochs a" by (rule total_steps_pos_epochs)
    have en: "int (nat (epochs a) * n) = int n * epochs a" using e by simp
    have "step (train_loop fin a (total_steps a n) n) =
            int (min (nat (epochs a) * n) (max 1 (nat (total_steps a n))))"
      by (simp add: run step_micro_batches init_state_def)
    also have "\<dots> = min (int (nat (epochs a) * n)) (total_steps a n)"
      using pos by arith
    finally show "step (train_loop fin a (total_steps a n) n)
                    = min (total_steps a n) (int n * epochs a)"
      unfolding en by (simp only: min.commute)
  qed
  have zero: "total_steps a n \<le> 0 \<and> 0 < epochs a \<and> 0 < n \<longrightarrow>
        train_loop fin a (total_steps a n) n = micro_batch a (fin 0) init_state
      \<and> step (train_loop fin a (total_steps a n) n) = 1"
  proof
    assume z: "total_steps a n \<le> 0 \<and> 0 < epochs a \<and> 0 < n"
    then have "0 < nat (epochs a) * n" by simp
    with z have "min (nat (epochs a) * n) (max 1 (nat (total_steps a n))) = Suc 0" by arith
    with run have one: "train_loop fin a (total_steps a n) n = micro_batch a (fin 0) init_state"
      by (simp add: init_state_def)
    then show "train_loop fin a (total_steps a n) n = micro_batch a (fin 0) init_state
      \<and> step (train_loop fin a (total_steps a n) n) = 1"
      by (simp add: step_micro_batch init_state_def)
  qed
  from ts run pos zero show ?thesis by (intro conjI)
qed

theorem total_steps_stop_witness:
  "total_steps demo_args 10 = 2
   \<and> 0 < total_steps demo_args 10
   \<and> step (train_loop (\<lambda>i. True) demo_args (total_steps demo_args 10) 10) = 2
   \<and> (2::int) < int 10 * epochs demo_args
   \<and> total_steps zero_budget_args 10 \<le> 0
   \<and> 0 < epochs zero_budget_args
   \<and> step (train_loop (\<lambda>i. True) zero_budget_args (total_steps zero_budget_args 10) 10) = 1"
proof -
  have ts: "total_steps demo_args 10 = 2"
    by (simp add: total_steps_def steps_per_epoch_def demo_args_def)
  have e: "epochs demo_args = 1" by (simp add: demo_args_def)
  have tz: "total_steps zero_budget_args 10 = 0"
    by (simp add: total_steps_def steps_per_epoch_def zero_budget_args_def demo_args_def)
  have ez: "epochs zero_budget_args = 1" by (simp add: zero_budget_args_def demo_args_def)
  from total_steps_stop[of demo_args 10 "\<lambda>i. True"]
  have "0 < total_steps demo_args 10 \<longrightarrow>
          step (train_loop (\<lambda>i. True) demo_args (total_steps demo_args 10) 10)
            = min (total_steps demo_args 10) (int 10 * epochs demo_args)"
    by (elim conjE)
  moreover from total_steps_stop[of zero_budget_args 10 "\<lambda>i. True"]
  have "total_steps zero_budget_args 10 \<le> 0 \<and> 0 < epochs zero_budget_args \<and> 0 < (10::nat) \<longrightarrow>
          step (train_loop (\<lambda>i. True) zero_budget_args (total_steps zero_budget_args 10) 10) = 1"
    by (elim conjE) blast
  ultimately show ?thesis using ts e tz ez by simp
qed

section \<open>Batch inference\<close>

lemma image_not_found_record_fields:
  "field (image_not_found_record row) ''pred_text'' = JNull"
  "field (image_not_found_record row) ''error'' = JStr ''image_not_found''"
  by (simp_all add: image_not_found_record_def dict_get_def update_conv')

lemma success_record_fields:
  "field (success_record row pred) ''pred_text'' = JStr pred"
  "field (success_record row pred) ''error'' = JNull"
  by (simp_all add: success_record_def dict_get_def update_conv')

lemma image_not_found_record_populated:
  "exactly_one_populated (image_not_found_record row)"
  "\<not> pred_text_set (image_not_found_record row)"
  by (simp_all add: exactly_one_populated_def pred_text_set_def error_set_def
        image_not_found_record_fields) (simp add: image_not_found_record_def)

lemma success_record_populated:
  "exactly_one_populated (success_record row pred)"
  "pred_text_set (success_record row pred)"
  by (simp_all add: exactly_one_populated_def pred_text_set_def error_set_def
        success_record_fields) (simp add: success_record_def)

text \<open>What one pass of the loop body does with a line that gives a record with an image
  name.\<close>

lemma batch_loop_image_missing:
  "strip line \<noteq> [] \<Longrightarrow> json_loads w (strip line) = Some (JObj row)
   \<Longrightarrow> dict_get row ''image_path'' JNull = JStr img \<Longrightarrow> img \<noteq> []
   \<Longrightarrow> path_exists w img = Some False
   \<Longrightarrow> batch_loop w limit (line # f) preds n =
         batch_loop w limit f (preds @ [image_not_found_record row]) n"
  by (simp add: image_not_found_record_def)

lemma batch_loop_exists_raises:
  "strip line \<noteq> [] \<Longrightarrow> json_loads w (strip line) = Some (JObj row)
   \<Longrightarrow> dict_get row ''image_path'' JNull = JStr img \<Longrightarrow> img \<noteq> []
   \<Longrightarrow> path_exists w img = None
   \<Longrightarrow> batch_loop w limit (line # f) preds n = Inl OSError"
  by simp

lemma batch_loop_captioned:
  "strip line \<noteq> [] \<Longrightarrow> json_loads w (strip line) = Some (JObj row)
   \<Longrightarrow> dict_get row ''image_path'' JNull = JStr img \<Longrightarrow> img \<noteq> []
   \<Longrightarrow> path_exists w img = Some True \<Longrightarrow> caption w img = Some pred
   \<Longrightarrow> batch_loop w limit (line # f) preds n =
         (if limit \<noteq> 0 \<and> limit \<le> n + 1 then Inr (preds @ [success_record row pred])
          else batch_loop w limit f (preds @ [success_record row pred]) (n + 1))"
  by (simp add: success_record_def Let_def)

text \<open>A pass that does not raise is one of four.\<close>

lemma batch_loop_Inr_cases:
  assumes "batch_loop w limit (line # f) preds n = Inr out"
  obtains
    (blank) "strip line = []"
  | (skipped) row where "strip line \<noteq> []" "json_loads w (strip line) = Some (JObj row)"
      "\<not> truthy (dict_get row ''image_path'' JNull)"
  | (missing) row img where "strip line \<noteq> []" "json_loads w (strip line) = Some (JObj row)"
      "dict_get row ''image_path'' JNull = JStr img" "img \<noteq> []"
      "path_exists w img = Some False"
  | (captioned) row img pred where "strip line \<noteq> []"
      "json_loads w (strip line) = Some (JObj row)"
      "dict_get row ''image_path'' JNull = JStr img" "img \<noteq> []"
      "path_exists w img = Some True" "caption w img = Some pred"
proof (cases "strip line = []")
  case True
  then show ?thesis by (rule blank)
next
  case False
  with assms obtain row where row: "json_loads w (strip line) = Some (JObj row)"
    by (auto simp: Let_def split: option.splits json.splits)
  show ?thesis
  proof (cases "truthy (dict_get row ''image_path'' JNull)")
    case nt: False
    from False row nt show ?thesis by (rule skipped)
  next
    case t: True
    with False row assms obtain img where img: "dict_get row ''image_path'' JNull = JStr img"
      by (cases "dict_get row ''image_path'' JNull") (auto simp: Let_def)
    with t have ne: "img \<noteq> []" by simp
    from False row img ne assms obtain b where b: "path_exists w img = Some b"
      by (cases "path_exists w img") auto
    show ?thesis
    proof (cases b)
      case nex: False
      with b have "path_exists w img = Some False" by simp
      with False row img ne show ?thesis by (rule missing)
    next
      case ex: True
      with b have e: "path_exists w img = Some True" by simp
      with False row img ne assms obtain pred where "caption w img = Some pred"
        by (auto simp: Let_def split: option.splits)
      with False row img ne e show ?thesis by (rule captioned)
    qed
  qed
qed

lemma batch_loop_emits:
  "batch_loop w limit f preds n = Inr out \<Longrightarrow>
     \<exists>new. out = preds @ new
          \<and> (\<forall>r\<in>set new. exactly_one_populated r)
          \<and> (0 < limit \<longrightarrow> n < limit \<longrightarrow> int (length (filter pred_text_set new)) \<le> limit - n)"
proof (induction f arbitrary: preds n)
  case Nil
  then show ?case by simp
next
  case (Cons line f)
  from Cons.prems show ?case
  proof (cases rule: batch_loop_Inr_cases)
    case blank
    with Cons.prems have "batch_loop w limit f preds n = Inr out" by simp
    from Cons.IH[OF this] show ?thesis .
  next
    case (skipped row)
    with Cons.prems have "batch_loop w limit f preds n = Inr out" by simp
    from Cons.IH[OF this] show ?thesis .
  next
    case (missing row img)
    let ?r = "image_not_found_record row"
    from Cons.prems batch_loop_image_missing[OF missing]
    have "batch_loop w limit f (preds @ [?r]) n = Inr out" by simp
    from Cons.IH[OF this] obtain new where new: "out = (preds @ [?r]) @ new"
      "\<forall>r\<in>set new. exactly_one_populated r"
      "0 < limit \<longrightarrow> n < limit \<longrightarrow> int (length (filter pred_text_set new)) \<le> limit - n"
      by blast
    show ?thesis
      using new by (intro exI[of _ "?r # new"]) (simp add: image_not_found_record_populated)
  next
    case (captioned row img pred)
    let ?r = "success_record row pred"
    note eq = batch_loop_captioned[OF captioned, of limit f preds n]
    show ?thesis
    proof (cases "limit \<noteq> 0 \<and> limit \<le> n + 1")
      case True
      with eq Cons.prems have "out = preds @ [?r]" by simp
      then show ?thesis
        by (intro exI[of _ "[?r]"]) (simp add: success_record_populated)
    next
      case False
      with eq Cons.prems have "batch_loop w limit f (preds @ [?r]) (n + 1) = Inr out" by simp
      from Cons.IH[OF this] obtain new where new: "out = (preds @ [?r]) @ new"
        "\<forall>r\<in>set new. exactly_one_populated r"
        "0 < limit \<longrightarrow> n + 1 < limit \<longrightarrow>
           int (length (filter pred_text_set new)) \<le> limit - (n + 1)"
        by blast
      show ?thesis
        using new False by (intro exI[of _ "?r # new"]) (auto simp: success_record_populated)
    qed
  qed
qed

text \<open>With a positive limit \<open>L\<close>, lines that are all captioned stop the loop when the
  count reaches \<open>L\<close>.\<close>

lemma batch_loop_all_captioned:
  assumes "strip line \<noteq> []" "json_loads w (strip line) = Some (JObj row)"
    "dict_get row ''image_path'' JNull = JStr img" "img \<noteq> []"
    "path_exists w img = Some True" "caption w img = Some pred"
  shows "0 < k \<Longrightarrow> 0 \<le> n \<Longrightarrow> n + int k = L \<Longrightarrow>
           batch_loop w L (replicate k line) preds n =
             Inr (preds @ replicate k (success_record row pred))"
proof (induction k arbitrary: preds n)
  case 0
  then show ?case by simp
next
  case (Suc k)
  let ?r = "success_record row pred"
  note eq = batch_loop_captioned[OF assms, of L "replicate k line" preds n]
  show ?case
  proof (cases "k = 0")
    case True
    with Suc.prems have "L \<noteq> 0 \<and> L \<le> n + 1" by simp
    with eq True show ?thesis by simp
  next
    case False
    with Suc.prems have "\<not> (L \<noteq> 0 \<and> L \<le> n + 1)" by simp
    with eq have "batch_loop w L (replicate (Suc k) line) preds n =
                    batch_loop w L (replicate k line) (preds @ [?r]) (n + 1)" by simp
    moreover from Suc.IH[of "n + 1" "preds @ [?r]"] False Suc.prems
    have "batch_loop w L (replicate k line) (preds @ [?r]) (n + 1) =
            Inr ((preds @ [?r]) @ replicate k ?r)" by simp
    ultimately show ?thesis by (simp add: replicate_app_Cons_same)
  qed
qed

lemma strip_nl_row_long: "strip (nl row_long) = row_long"
  by (simp add: nl_def strip_def isspace_def row_long_def)

lemma row_a_not_long: "row_a \<noteq> row_long"
proof
  assume "row_a = row_long"
  then have "length row_a = length row_long" by simp
  then show False by (simp add: row_a_def row_long_def long_name_def)
qed

text \<open>
  Claim C7, as stated, fails: a row whose image is missing because its name is too long
  for the file system makes \<^verbatim>\<open>img_path.exists()\<close> raise, and the whole batch is lost,
  with the record of the row before it.
\<close>

theorem prediction_record_invariant_counterexample:
  "open_file long_name_world ''long.jsonl'' = Some [nl row_a, nl row_long]
   \<and> json_loads long_name_world (strip (nl row_long))
       = Some (JObj [(''image_path'', JStr long_name)])
   \<and> length long_name = 300
   \<and> path_exists long_name_world long_name = None
   \<and> predict_main long_name_world 0 ''long.jsonl'' = Inl OSError"
proof -
  have f: "open_file long_name_world ''long.jsonl'' = Some [nl row_a, nl row_long]"
    by (simp add: long_name_world_def)
  have len: "length long_name = 300" by (simp add: long_name_def)
  have sa: "strip (nl row_a) = row_a" by (simp add: nl_def strip_def isspace_def row_a_def)
  have da: "json_loads demo_world row_a
              = Some (JObj [(''image_path'', JStr ''a.jpg''), (''text'', JStr ''red shoe'')])"
    by (simp add: demo_world_def demo_decoder_def)
  have a: "strip (nl row_a) \<noteq> []"
    "json_loads long_name_world (strip (nl row_a))
       = Some (JObj [(''image_path'', JStr ''a.jpg''), (''text'', JStr ''red shoe'')])"
    "dict_get [(''image_path'', JStr ''a.jpg''), (''text'', JStr ''red shoe'')] ''image_path'' JNull
       = JStr ''a.jpg''"
    "''a.jpg'' \<noteq> []" "path_exists long_name_world ''a.jpg'' = Some True"
    "caption long_name_world ''a.jpg'' = Some ''a shoe''"
    by (simp_all add: sa da row_a_not_long long_name_world_def dict_get_def)
       (simp_all add: row_a_def demo_world_def)
  have l: "strip (nl row_long) \<noteq> []"
    "json_loads long_name_world (strip (nl row_long)) = Some (JObj [(''image_path'', JStr long_name)])"
    "dict_get [(''image_path'', JStr long_name)] ''image_path'' JNull = JStr long_name"
    "long_name \<noteq> []" "path_exists long_name_world long_name = None"
    by (simp_all add: strip_nl_row_long long_name_world_def dict_get_def demo_world_def len)
       (simp_all add: row_long_def long_name_def)
  have "batch_loop long_name_world 0 [nl row_a, nl row_long] [] 0 = Inl OSError"
    using batch_loop_captioned[OF a, of 0 "[nl row_long]" "[]" 0]
      batch_loop_exists_raises[OF l, of 0 "[]"
        "[] @ [success_record [(''image_path'', JStr ''a.jpg''), (''text'', JStr ''red shoe'')]
                 ''a shoe'']" 1]
    by simp
  with f l(2,5) len show ?thesis by (simp add: predict_main_def)
qed

text \<open>
  Claim C7, amended. Every record that batch inference emits has exactly one of
  \<^verbatim>\<open>pred_text\<close> and \<^verbatim>\<open>error\<close> not null. A row for whose image \<^verbatim>\<open>exists()\<close> answers no
  adds the record with \<^verbatim>\<open>error = "image_not_found"\<close> and \<^verbatim>\<open>pred_text = null\<close>, and the
  loop goes on with the next line and the same count. A row for whose image \<^verbatim>\<open>exists()\<close>
  raises aborts the batch with \<^verbatim>\<open>OSError\<close>, and nothing is written.
\<close>

theorem prediction_record_invariant:
  "(predict_main w limit p = Inr out \<longrightarrow> (\<forall>r\<in>set out. exactly_one_populated r))
   \<and> (strip line \<noteq> [] \<and> json_loads w (strip line) = Some (JObj row)
        \<and> field (JObj row) ''image_path'' = JStr img \<and> img \<noteq> []
        \<and> path_exists w img = Some False
      \<longrightarrow> batch_loop w limit (line # f) preds n =
            batch_loop w limit f (preds @ [image_not_found_record row]) n
          \<and> field (image_not_found_record row) ''error'' = JStr ''image_not_found''
          \<and> field (image_not_found_record row) ''pred_text'' = JNull)
   \<and> (strip line \<noteq> [] \<and> json_loads w (strip line) = Some (JObj row)
        \<and> field (JObj row) ''image_path'' = JStr img \<and> img \<noteq> []
        \<and> path_exists w img = None
      \<longrightarrow> batch_loop w limit (line # f) preds n = Inl OSError)"
proof -
  have one: "predict_main w limit p = Inr out \<longrightarrow> (\<forall>r\<in>set out. exactly_one_populated r)"
  proof
    assume "predict_main w limit p = Inr out"
    then obtain f' where "batch_loop w limit f' [] 0 = Inr out"
      by (auto simp: predict_main_def split: option.splits)
    from batch_loop_emits[OF this] show "\<forall>r\<in>set out. exactly_one_populated r" by auto
  qed
  have missing: "strip line \<noteq> [] \<and> json_loads w (strip line) = Some (JObj row)
        \<and> field (JObj row) ''image_path'' = JStr img \<and> img \<noteq> []
        \<and> path_exists w img = Some False
      \<longrightarrow> batch_loop w limit (line # f) preds n =
            batch_loop w limit f (preds @ [image_not_found_record row]) n
          \<and> field (image_not_found_record row) ''error'' = JStr ''image_not_found''
          \<and> field (image_not_found_record row) ''pred_text'' = JNull"
    by (simp add: image_not_found_record_fields) (simp add: image_not_found_record_def)
  have raises: "strip line \<noteq> [] \<and> json_loads w (strip line) = Some (JObj row)
        \<and> field (JObj row) ''image_path'' = JStr img \<and> img \<noteq> []
        \<and> path_exists w img = None
      \<longrightarrow> batch_loop w limit (line # f) preds n = Inl OSError"
    by simp
  from one missing raises show ?thesis by (intro conjI)
qed

theorem prediction_record_invariant_witness:
  "predict_main demo_world 0 ''two.jsonl'' =
     Inr [JObj [(''image_path'', JStr ''a.jpg''), (''text'', JStr ''red shoe''),
                (''pred_text'', JStr ''a shoe''), (''error'', JNull)],
          JObj [(''image_path'', JStr ''d.jpg''), (''text'', JStr ''belt''),
                (''pred_text'', JNull), (''error'', JStr ''image_not_found'')]]
   \<and> exactly_one_populated
        (JObj [(''image_path'', JStr ''a.jpg''), (''text'', JStr ''red shoe''),
               (''pred_text'', JStr ''a shoe''), (''error'', JNull)])
   \<and> exactly_one_populated
        (JObj [(''image_path'', JStr ''d.jpg''), (''text'', JStr ''belt''),
               (''pred_text'', JNull), (''error'', JStr ''image_not_found'')])
   \<and> strip (nl row_d) \<noteq> []
   \<and> json_loads demo_world (strip (nl row_d))
       = Some (JObj [(''image_path'', JStr ''d.jpg''), (''text'', JStr ''belt'')])
   \<and> path_exists demo_world ''d.jpg'' = Some False
   \<and> batch_loop demo_world 0 [nl row_d, nl row_a] [] 0 =
       batch_loop demo_world 0 [nl row_a]
         [image_not_found_record [(''image_path'', JStr ''d.jpg''), (''text'', JStr ''belt'')]] 0
   \<and> strip (nl row_long) \<noteq> []
   \<and> json_loads long_name_world (strip (nl row_long))
       = Some (JObj [(''image_path'', JStr long_name)])
   \<and> path_exists long_name_world long_name = None
   \<and> batch_loop long_name_world 0 [nl row_long, nl row_a] [] 0 = Inl OSError"
proof -
  have run: "predict_main demo_world 0 ''two.jsonl'' =
     Inr [JObj [(''image_path'', JStr ''a.jpg''), (''text'', JStr ''red shoe''),
                (''pred_text'', JStr ''a shoe''), (''error'', JNull)],
          JObj [(''image_path'', JStr ''d.jpg''), (''text'', JStr ''belt''),
                (''pred_text'', JNull), (''error'', JStr ''image_not_found'')]]"
    by (simp add: predict_main_def demo_defs)
  have h: "strip (nl row_d) \<noteq> []
     \<and> json_loads demo_world (strip (nl row_d))
         = Some (JObj [(''image_path'', JStr ''d.jpg''), (''text'', JStr ''belt'')])
     \<and> field (JObj [(''image_path'', JStr ''d.jpg''), (''text'', JStr ''belt'')]) ''image_path''
         = JStr ''d.jpg''
     \<and> ''d.jpg'' \<noteq> [] \<and> path_exists demo_world ''d.jpg'' = Some False"
    by (simp add: demo_defs)
  have l: "strip (nl row_long) \<noteq> []
     \<and> json_loads long_name_world (strip (nl row_long))
         = Some (JObj [(''image_path'', JStr long_name)])
     \<and> field (JObj [(''image_path'', JStr long_name)]) ''image_path'' = JStr long_name
     \<and> long_name \<noteq> [] \<and> path_exists long_name_world long_name = None"
    by (simp add: strip_nl_row_long long_name_world_def dict_get_def demo_world_def)
       (simp add: row_long_def long_name_def)
  from prediction_record_invariant[of demo_world 0 "''two.jsonl''" _ "nl row_d"
         "[(''image_path'', JStr ''d.jpg''), (''text'', JStr ''belt'')]" "''d.jpg''"
         "[nl row_a]" "[]" 0] run h
  have d: "(\<forall>r\<in>set [JObj [(''image_path'', JStr ''a.jpg''), (''text'', JStr ''red shoe''),
                (''pred_text'', JStr ''a shoe''), (''error'', JNull)],
          JObj [(''image_path'', JStr ''d.jpg''), (''text'', JStr ''belt''),
                (''pred_text'', JNull), (''error'', JStr ''image_not_found'')]].
            exactly_one_populated r)
     \<and> batch_loop demo_world 0 [nl row_d, nl row_a] [] 0 =
       batch_loop demo_world 0 [nl row_a]
         [image_not_found_record [(''image_path'', JStr ''d.jpg''), (''text'', JStr ''belt'')]] 0"
    by simp
  from prediction_record_invariant[of long_name_world 0 _ _ "nl row_long"
         "[(''image_path'', JStr long_name)]" long_name "[nl row_a]" "[]" 0] l
  have "batch_loop long_name_world 0 [nl row_long, nl row_a] [] 0 = Inl OSError"
    by blast
  with run h l d show ?thesis by simp
qed

text \<open>
  Claim C9. With a positive limit \<open>L\<close> only the captioned records count. A row whose
  image is missing adds its error record and leaves the count \<open>n\<close> as it was; a
  captioned row adds one to \<open>n\<close> and ends the loop when \<open>n\<close> is then at \<open>L\<close>. So the
  output never has more than \<open>L\<close> captioned records, and it can have \<open>L\<close> of them with
  error records on top, which makes it longer than \<open>L\<close>.
\<close>

theorem limit_counts_successes:
  assumes "0 < L"
  shows "(\<forall>w p out. predict_main w L p = Inr out \<longrightarrow>
            int (length (filter pred_text_set out)) \<le> L)
       \<and> (\<forall>w line row img f preds n.
            strip line \<noteq> [] \<and> json_loads w (strip line) = Some (JObj row)
            \<and> field (JObj row) ''image_path'' = JStr img \<and> img \<noteq> []
            \<and> path_exists w img = Some False
            \<longrightarrow> batch_loop w L (line # f) preds n =
                  batch_loop w L f (preds @ [image_not_found_record row]) n)
       \<and> (\<forall>w line row img pred f preds n.
            strip line \<noteq> [] \<and> json_loads w (strip line) = Some (JObj row)
            \<and> field (JObj row) ''image_path'' = JStr img \<and> img \<noteq> []
            \<and> path_exists w img = Some True \<and> caption w img = Some pred
            \<longrightarrow> batch_loop w L (line # f) preds n =
                  (if L \<le> n + 1 then Inr (preds @ [success_record row pred])
                   else batch_loop w L f (preds @ [success_record row pred]) (n + 1)))
       \<and> (\<exists>w p out. predict_main w L p = Inr out \<and> L < int (length out)
                    \<and> int (length (filter pred_text_set out)) = L)"
proof -
  have bound: "\<forall>w p out. predict_main w L p = Inr out \<longrightarrow>
            int (length (filter pred_text_set out)) \<le> L"
  proof (intro allI impI)
    fix w p out
    assume "predict_main w L p = Inr out"
    then obtain f where "batch_loop w L f [] 0 = Inr out"
      by (auto simp: predict_main_def split: option.splits)
    from batch_loop_emits[OF this] assms
    show "int (length (filter pred_text_set out)) \<le> L" by auto
  qed
  have err: "\<forall>w line row img f preds n.
            strip line \<noteq> [] \<and> json_loads w (strip line) = Some (JObj row)
            \<and> field (JObj row) ''image_path'' = JStr img \<and> img \<noteq> []
            \<and> path_exists w img = Some False
            \<longrightarrow> batch_loop w L (line # f) preds n =
                  batch_loop w L f (preds @ [image_not_found_record row]) n"
    by (simp add: image_not_found_record_def)
  have ok: "\<forall>w line row img pred f preds n.
            strip line \<noteq> [] \<and> json_loads w (strip line) = Some (JObj row)
            \<and> field (JObj row) ''image_path'' = JStr img \<and> img \<noteq> []
            \<and> path_exists w img = Some True \<and> caption w img = Some pred
            \<longrightarrow> batch_loop w L (line # f) preds n =
                  (if L \<le> n + 1 then Inr (preds @ [success_record row pred])
                   else batch_loop w L f (preds @ [success_record row pred]) (n + 1))"
    using assms by (simp add: success_record_def Let_def)
  have ex: "\<exists>w p out. predict_main w L p = Inr out \<and> L < int (length out)
                    \<and> int (length (filter pred_text_set out)) = L"
  proof -
    define rd where "rd = [(''image_path'', JStr ''d.jpg''), (''text'', JStr ''belt'')]"
    define ra where "ra = [(''image_path'', JStr ''a.jpg''), (''text'', JStr ''red shoe'')]"
    define w where
      "w = demo_world\<lparr>open_file := (\<lambda>p. Some (nl row_d # replicate (nat L) (nl row_a)))\<rparr>"
    let ?e = "image_not_found_record rd"
    let ?s = "success_record ra ''a shoe''"
    have d: "strip (nl row_d) \<noteq> []" "json_loads w (strip (nl row_d)) = Some (JObj rd)"
      "dict_get rd ''image_path'' JNull = JStr ''d.jpg''" "''d.jpg'' \<noteq> []"
      "path_exists w ''d.jpg'' = Some False"
      by (simp_all add: w_def rd_def demo_defs)
    have a: "strip (nl row_a) \<noteq> []" "json_loads w (strip (nl row_a)) = Some (JObj ra)"
      "dict_get ra ''image_path'' JNull = JStr ''a.jpg''" "''a.jpg'' \<noteq> []"
      "path_exists w ''a.jpg'' = Some True" "caption w ''a.jpg'' = Some ''a shoe''"
      by (simp_all add: w_def ra_def demo_defs)
    have "batch_loop w L (nl row_d # replicate (nat L) (nl row_a)) [] 0 =
            batch_loop w L (replicate (nat L) (nl row_a)) ([] @ [?e]) 0"
      by (rule batch_loop_image_missing[OF d])
    also have "\<dots> = Inr (([] @ [?e]) @ replicate (nat L) ?s)"
      using assms by (intro batch_loop_all_captioned[OF a]) simp_all
    finally have "predict_main w L ''many.jsonl'' = Inr (?e # replicate (nat L) ?s)"
      by (simp add: predict_main_def w_def)
    moreover have "L < int (length (?e # replicate (nat L) ?s))" by simp
    moreover have "int (length (filter pred_text_set (?e # replicate (nat L) ?s))) = L"
      using assms by (simp add: image_not_found_record_populated success_record_populated)
    ultimately show ?thesis by blast
  qed
  from bound err ok ex show ?thesis by (intro conjI)
qed

theorem limit_counts_successes_witness:
  "(0::int) < 1
   \<and> predict_main demo_world 1 ''limit.jsonl'' =
       Inr [JObj [(''image_path'', JStr ''d.jpg''), (''text'', JStr ''belt''),
                  (''pred_text'', JNull), (''error'', JStr ''image_not_found'')],
            JObj [(''image_path'', JStr ''a.jpg''), (''text'', JStr ''red shoe''),
                  (''pred_text'', JStr ''a shoe''), (''error'', JNull)]]
   \<and> int (length (filter pred_text_set
        [JObj [(''image_path'', JStr ''d.jpg''), (''text'', JStr ''belt''),
               (''pred_text'', JNull), (''error'', JStr ''image_not_found'')],
         JObj [(''image_path'', JStr ''a.jpg''), (''text'', JStr ''red shoe''),
               (''pred_text'', JStr ''a shoe''), (''error'', JNull)]])) \<le> 1
   \<and> (1::int) < int (length
        [JObj [(''image_path'', JStr ''d.jpg''), (''text'', JStr ''belt''),
               (''pred_text'', JNull), (''error'', JStr ''image_not_found'')],
         JObj [(''image_path'', JStr ''a.jpg''), (''text'', JStr ''red shoe''),
               (''pred_text'', JStr ''a shoe''), (''error'', JNull)]])
   \<and> path_exists demo_world ''d.jpg'' = Some False
   \<and> batch_loop demo_world 1 [nl row_d, nl row_a, nl row_e] [] 0 =
       batch_loop demo_world 1 [nl row_a, nl row_e]
         [image_not_found_record [(''image_path'', JStr ''d.jpg''), (''text'', JStr ''belt'')]] 0
   \<and> path_exists demo_world ''a.jpg'' = Some True
   \<and> batch_loop demo_world 1 [nl row_a, nl row_e]
         [image_not_found_record [(''image_path'', JStr ''d.jpg''), (''text'', JStr ''belt'')]] 0 =
       Inr [image_not_found_record [(''image_path'', JStr ''d.jpg''), (''text'', JStr ''belt'')],
            success_record [(''image_path'', JStr ''a.jpg''), (''text'', JStr ''red shoe'')]
              ''a shoe'']"
proof -
  have run: "predict_main demo_world 1 ''limit.jsonl'' =
       Inr [JObj [(''image_path'', JStr ''d.jpg''), (''text'', JStr ''belt''),
                  (''pred_text'', JNull), (''error'', JStr ''image_not_found'')],
            JObj [(''image_path'', JStr ''a.jpg''), (''text'', JStr ''red shoe''),
                  (''pred_text'', JStr ''a shoe''), (''error'', JNull)]]"
    by (simp add: predict_main_def demo_defs)
  have pos: "(0::int) < 1" by simp
  have d: "strip (nl row_d) \<noteq> []
     \<and> json_loads demo_world (strip (nl row_d))
         = Some (JObj [(''image_path'', JStr ''d.jpg''), (''text'', JStr ''belt'')])
     \<and> field (JObj [(''image_path'', JStr ''d.jpg''), (''text'', JStr ''belt'')]) ''image_path''
         = JStr ''d.jpg''
     \<and> ''d.jpg'' \<noteq> [] \<and> path_exists demo_world ''d.jpg'' = Some False"
    by (simp add: demo_defs)
  have a: "strip (nl row_a) \<noteq> []
     \<and> json_loads demo_world (strip (nl row_a))
         = Some (JObj [(''image_path'', JStr ''a.jpg''), (''text'', JStr ''red shoe'')])
     \<and> field (JObj [(''image_path'', JStr ''a.jpg''), (''text'', JStr ''red shoe'')]) ''image_path''
         = JStr ''a.jpg''
     \<and> ''a.jpg'' \<noteq> [] \<and> path_exists demo_world ''a.jpg'' = Some True
     \<and> caption demo_world ''a.jpg'' = Some ''a shoe''"
    by (simp add: demo_defs)
  note lim = limit_counts_successes[OF pos]
  from lim run
  have c: "int (length (filter pred_text_set
        [JObj [(''image_path'', JStr ''d.jpg''), (''text'', JStr ''belt''),
               (''pred_text'', JNull), (''error'', JStr ''image_not_found'')],
         JObj [(''image_path'', JStr ''a.jpg''), (''text'', JStr ''red shoe''),
               (''pred_text'', JStr ''a shoe''), (''error'', JNull)]])) \<le> 1"
    by blast
  from lim d
  have e: "batch_loop demo_world 1 [nl row_d, nl row_a, nl row_e] [] 0 =
       batch_loop demo_world 1 [nl row_a, nl row_e]
         ([] @ [image_not_found_record [(''image_path'', JStr ''d.jpg''), (''text'', JStr ''belt'')]]) 0"
    by blast
  from lim a
  have s: "batch_loop demo_world 1 [nl row_a, nl row_e]
         [image_not_found_record [(''image_path'', JStr ''d.jpg''), (''text'', JStr ''belt'')]] 0 =
       (if (1::int) \<le> 0 + 1
        then Inr ([image_not_found_record [(''image_path'', JStr ''d.jpg''), (''text'', JStr ''belt'')]]
                  @ [success_record [(''image_path'', JStr ''a.jpg''), (''text'', JStr ''red shoe'')]
                       ''a shoe''])
        else batch_loop demo_world 1 [nl row_e]
               ([image_not_found_record [(''image_path'', JStr ''d.jpg''), (''text'', JStr ''belt'')]]
                  @ [success_record [(''image_path'', JStr ''a.jpg''), (''text'', JStr ''red shoe'')]
                       ''a shoe'']) (0 + 1))"
    by blast
  have len: "(1::int) < int (length
        [JObj [(''image_path'', JStr ''d.jpg''), (''text'', JStr ''belt''),
               (''pred_text'', JNull), (''error'', JStr ''image_not_found'')],
         JObj [(''image_path'', JStr ''a.jpg''), (''text'', JStr ''red shoe''),
               (''pred_text'', JStr ''a shoe''), (''error'', JNull)]])"
    by simp
  from e have e': "batch_loop demo_world 1 [nl row_d, nl row_a, nl row_e] [] 0 =
       batch_loop demo_world 1 [nl row_a, nl row_e]
         [image_not_found_record [(''image_path'', JStr ''d.jpg''), (''text'', JStr ''belt'')]] 0"
    by simp
  from s have s': "batch_loop demo_world 1 [nl row_a, nl row_e]
         [image_not_found_record [(''image_path'', JStr ''d.jpg''), (''text'', JStr ''belt'')]] 0 =
       Inr [image_not_found_record [(''image_path'', JStr ''d.jpg''), (''text'', JStr ''belt'')],
            success_record [(''image_path'', JStr ''a.jpg''), (''text'', JStr ''red shoe'')]
              ''a shoe'']"
    by simp
  from d have pd: "path_exists demo_world ''d.jpg'' = Some False" by blast
  from a have pa: "path_exists demo_world ''a.jpg'' = Some True" by blast
  from pos run c len pd e' pa s' show ?thesis by (intro conjI)
qed

text \<open>
  Claim C10. A row whose \<^verbatim>\<open>image_path\<close> is missing or empty adds nothing to the output,
  not even an error record: the loop goes on as if the line were not there. So the
  output can have fewer records than the input has rows.
\<close>

theorem rows_without_image_path_omitted:
  "(strip line \<noteq> [] \<and> json_loads w (strip line) = Some (JObj row)
      \<and> \<not> has_nonempty row ''image_path''
    \<longrightarrow> batch_loop w limit (line # f) preds n = batch_loop w limit f preds n)
   \<and> (\<exists>w' p f' out. open_file w' p = Some f' \<and> predict_main w' limit p = Inr out
         \<and> length out < length (nonblank_lines f'))"
proof (intro conjI impI)
  assume "strip line \<noteq> [] \<and> json_loads w (strip line) = Some (JObj row)
      \<and> \<not> has_nonempty row ''image_path''"
  then show "batch_loop w limit (line # f) preds n = batch_loop w limit f preds n"
    by (simp add: has_nonempty_get)
next
  have f: "open_file demo_world ''gaps.jsonl'' = Some [nl row_c, nl row_f, nl row_a]"
    by (simp add: demo_world_def demo_files_def)
  have "predict_main demo_world limit ''gaps.jsonl'' =
          Inr [JObj [(''image_path'', JStr ''a.jpg''), (''text'', JStr ''red shoe''),
                     (''pred_text'', JStr ''a shoe''), (''error'', JNull)]]"
    by (simp add: predict_main_def demo_defs Let_def)
  moreover have "length (nonblank_lines [nl row_c, nl row_f, nl row_a]) = 3"
    by (simp add: nonblank_lines_def demo_defs)
  ultimately show "\<exists>w' p f' out. open_file w' p = Some f' \<and> predict_main w' limit p = Inr out
         \<and> length out < length (nonblank_lines f')"
    using f by (intro exI[of _ demo_world] exI[of _ "''gaps.jsonl''"]
                  exI[of _ "[nl row_c, nl row_f, nl row_a]"]) simp
qed

theorem rows_without_image_path_omitted_witness:
  "strip (nl row_c) \<noteq> []
   \<and> json_loads demo_world (strip (nl row_c)) = Some (JObj [(''text'', JStr ''blue bag'')])
   \<and> \<not> has_nonempty [(''text'', JStr ''blue bag'')] ''image_path''
   \<and> batch_loop demo_world 0 [nl row_c, nl row_f, nl row_a] [] 0 =
       batch_loop demo_world 0 [nl row_f, nl row_a] [] 0
   \<and> strip (nl row_f) \<noteq> []
   \<and> json_loads demo_world (strip (nl row_f))
       = Some (JObj [(''image_path'', JStr []), (''text'', JStr ''scarf'')])
   \<and> \<not> has_nonempty [(''image_path'', JStr []), (''text'', JStr ''scarf'')] ''image_path''
   \<and> batch_loop demo_world 0 [nl row_f, nl row_a] [] 0 = batch_loop demo_world 0 [nl row_a] [] 0"
proof -
  have c: "strip (nl row_c) \<noteq> []
     \<and> json_loads demo_world (strip (nl row_c)) = Some (JObj [(''text'', JStr ''blue bag'')])
     \<and> \<not> has_nonempty [(''text'', JStr ''blue bag'')] ''image_path''"
    by (simp add: has_nonempty_def demo_defs)
  have f: "strip (nl row_f) \<noteq> []
     \<and> json_loads demo_world (strip (nl row_f))
         = Some (JObj [(''image_path'', JStr []), (''text'', JStr ''scarf'')])
     \<and> \<not> has_nonempty [(''image_path'', JStr []), (''text'', JStr ''scarf'')] ''image_path''"
    by (simp add: has_nonempty_def demo_defs)
  from rows_without_image_path_omitted[of "nl row_c" demo_world "[(''text'', JStr ''blue bag'')]"
         0 "[nl row_f, nl row_a]" "[]" 0]
       rows_without_image_path_omitted[of "nl row_f" demo_world
         "[(''image_path'', JStr []), (''text'', JStr ''scarf'')]" 0 "[nl row_a]" "[]" 0] c f
  show ?thesis by blast
qed

section \<open>Evaluation\<close>

lemma collect_rows_Inr:
  "collect_rows w f preds refs samples = Inr (preds', refs', samples') \<Longrightarrow>
     length preds' = length preds + length (filter valid_pair (records_of w f))
   \<and> (\<forall>l\<in>set (nonblank_lines f). json_loads w l \<noteq> None)"
proof (induction f arbitrary: preds refs samples)
  case Nil
  then show ?case by (simp add: records_of_def nonblank_lines_def List.map_filter_simps)
next
  case (Cons line f)
  show ?case
  proof (cases "strip line = []")
    case True
    with Cons.prems have "collect_rows w f preds refs samples = Inr (preds', refs', samples')"
      by simp
    from Cons.IH[OF this] True show ?thesis
      by (simp add: records_of_def nonblank_lines_def)
  next
    case False
    with Cons.prems obtain row where row: "json_loads w (strip line) = Some (JObj row)"
      by (auto simp: Let_def split: option.splits json.splits)
    have recs: "records_of w (line # f) = JObj row # records_of w f"
      using False row by (simp add: records_of_def nonblank_lines_def List.map_filter_simps)
    have nb: "set (nonblank_lines (line # f)) = insert (strip line) (set (nonblank_lines f))"
      using False by (simp add: nonblank_lines_def)
    show ?thesis
    proof (cases "valid_pair (JObj row)")
      case True
      with False row Cons.prems
      have "collect_rows w f (preds @ [py_str w (dict_get row ''pred_text'' JNull)])
              (refs @ [py_str w (dict_get row ''text'' JNull)])
              (samples @ [(dict_get row ''image_path'' (JStr []),
                           py_str w (dict_get row ''text'' JNull),
                           py_str w (dict_get row ''pred_text'' JNull))])
            = Inr (preds', refs', samples')"
        by (simp add: Let_def error_set_def has_nonempty_get)
      from Cons.IH[OF this] True row show ?thesis by (simp add: recs nb)
    next
      case nv: False
      with False row Cons.prems
      have "collect_rows w f preds refs samples = Inr (preds', refs', samples')"
        by (auto simp: Let_def error_set_def has_nonempty_get split: if_splits)
      from Cons.IH[OF this] nv row show ?thesis by (simp add: recs nb)
    qed
  qed
qed

text \<open>
  Claim C8. When the evaluation writes a report, every non-blank line of the predictions
  file has given one row, and the \<^verbatim>\<open>"n"\<close> of the report is the number of rows that are
  not error rows and have a non-empty reference and a non-empty prediction; it is not
  the number of lines.
\<close>

theorem metrics_n_is_filtered_count:
  assumes "open_file w p = Some f" and "evaluate_main w sc p k = Inr (m, shown)"
  shows "map (json_loads w) (nonblank_lines f) = map Some (records_of w f)
       \<and> metrics_n m = length (filter valid_pair (records_of w f))"
proof -
  from assms obtain preds refs samples where
    c: "collect_rows w f [] [] [] = Inr (preds, refs, samples)"
    and m: "compute_metrics sc preds refs = Inr m"
    by (auto simp: evaluate_main_def split: sum.splits prod.splits)
  from m have "metrics_n m = length preds"
    by (auto simp: compute_metrics_def split: option.splits prod.splits)
  with collect_rows_Inr[OF c] map_filter_all_Some[of "nonblank_lines f" "json_loads w"]
  show ?thesis by (simp add: records_of_def)
qed

theorem metrics_n_is_filtered_count_witness:
  "open_file demo_world ''preds.jsonl'' = Some [nl pred_a, nl pred_d, nl pred_e]
   \<and> evaluate_main demo_world demo_scorers ''preds.jsonl'' 50 =
       Inr (\<lparr>sacrebleu = 0, rouge1 = 0, rouge2 = 0, rougeL = 0, rougeLsum = 0, metrics_n = 2\<rparr>,
            [(JStr ''a.jpg'', ''red shoe'', ''a shoe''), (JStr ''e.jpg'', ''green hat'', ''a hat'')])
   \<and> length (filter valid_pair (records_of demo_world [nl pred_a, nl pred_d, nl pred_e])) = 2
   \<and> length [nl pred_a, nl pred_d, nl pred_e] = 3"
proof -
  have f: "open_file demo_world ''preds.jsonl'' = Some [nl pred_a, nl pred_d, nl pred_e]"
    by (simp add: demo_world_def demo_files_def)
  have run: "evaluate_main demo_world demo_scorers ''preds.jsonl'' 50 =
       Inr (\<lparr>sacrebleu = 0, rouge1 = 0, rouge2 = 0, rougeL = 0, rougeLsum = 0, metrics_n = 2\<rparr>,
            [(JStr ''a.jpg'', ''red shoe'', ''a shoe''), (JStr ''e.jpg'', ''green hat'', ''a hat'')])"
    by (simp add: evaluate_main_def compute_metrics_def demo_scorers_def slice_to_def demo_defs)
  from metrics_n_is_filtered_count[OF f run] f run show ?thesis by simp
qed

end
